theory Spec2Isabelle
  imports Main "HOL-Library.Char_ord" "HOL-Library.List_Lexorder"
begin

section \<open>maintainercollector: strings and library functions\<close>

text \<open>
  A Go string is a sequence of bytes; here it is a \<open>string\<close> (a list of \<open>char\<close>, one per
  byte). Go compares strings byte by byte, which is the lexicographic order on
  \<open>char list\<close> over the order of the byte values; \<open>sort.Strings\<close> sorts ascending in
  that order, here \<open>sort\<close>.
\<close>

text \<open>
  The two loops of \<open>strings.ToLower\<close> over the bytes of its argument: the scan for a
  byte at or above \<open>utf8.RuneSelf\<close> (0x80), and, for a string without one, the move of
  each byte in \<open>'A'..'Z'\<close> by \<open>'a' - 'A'\<close>.
\<close>

definition isASCII :: "string \<Rightarrow> bool" where
  "isASCII s = list_all (\<lambda>c. of_char c < (128::nat)) s"

definition toLowerByte :: "char \<Rightarrow> char" where
  "toLowerByte c =
     (if CHR ''A'' \<le> c \<and> c \<le> CHR ''Z'' then char_of (of_char c + (32::nat)) else c)"

text \<open>\<open>strings.Index(s, sep)\<close> for a separator of one byte: the first position, if any.\<close>

fun Index :: "string \<Rightarrow> char \<Rightarrow> nat option" where
  "Index [] sep = None"
| "Index (c # s) sep =
     (if c = sep then Some 0
      else (case Index s sep of None \<Rightarrow> None | Some m \<Rightarrow> Some (Suc m)))"

text \<open>
  \<open>strings.SplitN(s, sep, 2)\<close> for a separator of one byte: the string is cut at the
  first separator only; without a separator the result has the one element \<open>s\<close>.
\<close>

definition SplitN2 :: "string \<Rightarrow> char \<Rightarrow> string list" where
  "SplitN2 s sep =
     (case Index s sep of
        None \<Rightarrow> [s]
      | Some m \<Rightarrow> [take m s, drop (Suc m) s])"

section \<open>removeDuplicates and getProjectOrg\<close>

definition defaultOrg :: string where
  "defaultOrg = ''docker''"

definition ghRawUri :: string where
  "ghRawUri = ''https://raw.githubusercontent.com''"

text \<open>
  The loop of \<open>removeDuplicates\<close>: \<open>seens\<close> is the map of the elements met so far,
  \<open>uniqs\<close> the slice of first occurrences, appended to on the right.
\<close>

fun removeDuplicates_loop ::
  "(string \<rightharpoonup> bool) \<Rightarrow> string list \<Rightarrow> string list \<Rightarrow> string list" where
  "removeDuplicates_loop seens uniqs [] = uniqs"
| "removeDuplicates_loop seens uniqs (element # slice) =
     (if seens element = None
      then removeDuplicates_loop (seens(element \<mapsto> True)) (uniqs @ [element]) slice
      else removeDuplicates_loop seens uniqs slice)"

definition removeDuplicates :: "string list \<Rightarrow> string list" where
  "removeDuplicates slice = sort (removeDuplicates_loop Map.empty [] slice)"

definition getProjectOrg :: "string \<Rightarrow> string \<times> string" where
  "getProjectOrg project =
     (let p = SplitN2 project (CHR ''/'')
      in if length p = 2 then (p ! 0, p ! 1) else (defaultOrg, project))"

section \<open>The data model\<close>

text \<open>
  Modelled from the spec: the struct declarations \<open>Org\<close>, \<open>Person\<close>,
  \<open>MaintainersDepreciated\<close> and \<open>Maintainers\<close>, which \<open>main.go\<close> uses and does not
  declare. The records have the fields that \<open>main.go\<close> reads and writes, with the
  types its uses fix, as the data model of the specification describes them: a people
  group is a list of nicks; a declaration has four optional groups and a mapping from
  nick to person; the combined model maps group names to groups and nicks to persons.
  \<open>Person\<close> is passed through unchanged, so it is a type parameter \<open>'person\<close>.
  A pointer that may be nil is an \<open>option\<close>. A Go map that is only written and looked up
  is a map \<open>\<rightharpoonup>\<close>; the decoded \<open>People\<close> map of one declaration, which \<open>main\<close> ranges
  over, is the list of its entries in the order in which the runtime visits them (Go
  leaves that order open, so nothing below depends on a particular one). Field names
  of different records must differ here: \<open>People\<close> of a declaration is
  \<open>PeopleEntries\<close>, and \<open>Org\<close> and \<open>People\<close> of the combined model are \<open>OrgMap\<close> and
  \<open>PeopleMap\<close>.
\<close>

record Org =
  People :: "string list"

record Organization =
  Maintainers :: "Org option"
  CoreMaintainers :: "Org option"
  DocsMaintainers :: "Org option"
  Curators :: "Org option"

record 'person MaintainersDepreciated =
  Organization :: Organization
  PeopleEntries :: "(string \<times> 'person) list"

record 'person Maintainers =
  OrgMap :: "string \<rightharpoonup> Org"
  PeopleMap :: "string \<rightharpoonup> 'person"

section \<open>The outside world: transport, codec, log\<close>

text \<open>
  \<open>http.Get\<close>, \<open>ioutil.ReadAll\<close> and \<open>toml.Decode\<close> are external. One run sees one
  world: what \<open>http.Get\<close> answers for a URL (a transport error, or a response whose body
  either fails to read or reads as bytes), and what the decoder makes of a payload.
  Errors are carried as their message text, as \<open>%v\<close> prints them. The world also holds
  what the Go library makes of a string that is not all ASCII when it lowercases it,
  \<open>strings.Map(unicode.ToLower, s)\<close>: that goes through the Unicode tables and the UTF-8
  decoder of the library, which are taken as given and left open here, so that every
  statement below holds whatever they are.
\<close>

record 'person world =
  http_Get :: "string \<Rightarrow> string + (string + string)"
  toml_Decode :: "string \<Rightarrow> string + 'person MaintainersDepreciated"
  Map_unicode_ToLower :: "string \<Rightarrow> string"

text \<open>
  \<open>strings.ToLower\<close>: a string of ASCII bytes is lowercased byte by byte (a string
  without an upper-case letter comes back as it is); any other string is handed to
  \<open>strings.Map(unicode.ToLower, s)\<close>.
\<close>

definition ToLower :: "'person world \<Rightarrow> string \<Rightarrow> string" where
  "ToLower w s = (if isASCII s then map toLowerByte s else Map_unicode_ToLower w s)"

datatype level = InfoLevel | ErrorLevel

type_synonym logline = "level \<times> string"

definition fileUrl :: "string \<Rightarrow> string \<Rightarrow> string" where
  "fileUrl org project =
     ghRawUri @ ''/'' @ org @ ''/'' @ project @ ''/master/MAINTAINERS''"

text \<open>
  \<open>getMaintainers\<close> returns the lines it logs together with its result: \<open>Inl\<close> the
  error (its message), \<open>Inr\<close> the decoded declaration.
\<close>

definition getMaintainers ::
  "'person world \<Rightarrow> string \<Rightarrow> string \<Rightarrow>
     logline list \<times> (string + 'person MaintainersDepreciated)" where
  "getMaintainers w org project =
     ([(InfoLevel, org @ ''/'' @ project @ '': loading MAINTAINERS file from ''
                     @ fileUrl org project)],
      (case http_Get w (fileUrl org project) of
         Inl err \<Rightarrow> Inl (org @ ''/'' @ project @ '': '' @ err)
       | Inr body \<Rightarrow>
          (case body of
             Inl err \<Rightarrow> Inl (org @ ''/'' @ project @ '': '' @ err)
           | Inr file \<Rightarrow>
              (case toml_Decode w file of
                 Inl err \<Rightarrow>
                   Inl (org @ ''/'' @ project @ '': parsing MAINTAINERS file failed: '' @ err)
               | Inr maintainers \<Rightarrow> Inr maintainers))))"

section \<open>The aggregation loop of main\<close>

definition projects :: "string list" where
  "projects =
     [''boot2docker'', ''cli'', ''compose'', ''compose-on-kubernetes'',
      ''containerd/containerd'', ''distribution'', ''docker-bench-security'',
      ''docker-credential-helpers'', ''docker-py'', ''dockercraft'', ''go-connections'',
      ''go-events'', ''go-healthcheck'', ''go-p9p'', ''go-plugins-helpers'', ''go-units'',
      ''infrakit'', ''kitematic'', ''leadership'', ''leeroy'', ''libchan'', ''libcompose'',
      ''libkv'', ''libnetwork'', ''linuxkit/linuxkit'', ''machine'', ''migrator'',
      ''moby/datakit'', ''moby/hyperkit'', ''moby/moby'', ''moby/vpnkit'', ''spdystream'',
      ''swarm'', ''swarmkit'', ''swarm-frontends'', ''theupdateframework/notary'',
      ''toolbox'', ''v1.10-migrator'']"

text \<open>
  Lines 98 to 111: the \<open>Org\<close> built for one project. The primary group is looked at
  first; the legacy group only in the \<open>else\<close> branch.
\<close>

definition projectOrg :: "'person MaintainersDepreciated \<Rightarrow> Org" where
  "projectOrg maintainers =
     (case Maintainers (Organization maintainers) of
        Some g \<Rightarrow> \<lparr>People = People g\<rparr>
      | None \<Rightarrow>
         (case CoreMaintainers (Organization maintainers) of
            Some g \<Rightarrow> \<lparr>People = People g\<rparr>
          | None \<Rightarrow> \<lparr>People = []\<rparr>))"

text \<open>Lines 113 to 117: every nick lowercased in place, then the slice sorted.\<close>

definition normalizePeople :: "'person world \<Rightarrow> Org \<Rightarrow> Org" where
  "normalizePeople w p = \<lparr>People = sort (map (ToLower w) (People p))\<rparr>"

text \<open>
  \<open>m[key].People = append(m[key].People, extra...)\<close> on a map of pointers: a key that
  is not in the map gives a nil pointer, and the field access panics (\<open>None\<close>).
\<close>

definition appendPeople ::
  "string \<Rightarrow> string list \<Rightarrow> (string \<rightharpoonup> Org) \<Rightarrow> (string \<rightharpoonup> Org) option" where
  "appendPeople key extra m =
     (case m key of
        None \<Rightarrow> None
      | Some g \<Rightarrow> Some (m(key \<mapsto> \<lparr>People = People g @ extra\<rparr>)))"

text \<open>Lines 130 to 132: the range over the declaration's people, keys lowercased.\<close>

fun addPeople ::
  "'person world \<Rightarrow> (string \<rightharpoonup> 'person) \<Rightarrow> (string \<times> 'person) list \<Rightarrow>
     (string \<rightharpoonup> 'person)" where
  "addPeople w pm [] = pm"
| "addPeople w pm ((nick, person) # rest) = addPeople w (pm(ToLower w nick \<mapsto> person)) rest"

text \<open>
  Lines 98 to 132, the loop body after a successful \<open>getMaintainers\<close>, as a function of
  the combined model.
\<close>

definition mergeProject ::
  "'person world \<Rightarrow> string \<Rightarrow> 'person MaintainersDepreciated \<Rightarrow> 'person Maintainers \<Rightarrow>
     'person Maintainers option" where
  "mergeProject w project maintainers pm =
     (let orgs1 = (OrgMap pm)(project \<mapsto> normalizePeople w (projectOrg maintainers)) in
      case (case DocsMaintainers (Organization maintainers) of
              None \<Rightarrow> Some orgs1
            | Some d \<Rightarrow> appendPeople ''Docs maintainers'' (People d) orgs1) of
        None \<Rightarrow> None
      | Some orgs2 \<Rightarrow>
         (case (case Curators (Organization maintainers) of
                  None \<Rightarrow> Some orgs2
                | Some c \<Rightarrow> appendPeople ''Curators'' (People c) orgs2) of
            None \<Rightarrow> None
          | Some orgs3 \<Rightarrow>
              Some \<lparr>OrgMap = orgs3,
                    PeopleMap = addPeople w (PeopleMap pm) (PeopleEntries maintainers)\<rparr>))"

record 'person run_state =
  projectMaintainers :: "'person Maintainers"
  logged :: "logline list"

text \<open>One iteration of the loop over \<open>projects\<close> (lines 91 to 132).\<close>

definition step ::
  "'person world \<Rightarrow> 'person run_state \<Rightarrow> string \<Rightarrow> 'person run_state option" where
  "step w st p =
     (case getProjectOrg p of (org, project) \<Rightarrow>
        (case getMaintainers w org project of (lines, res) \<Rightarrow>
           (case res of
              Inl err \<Rightarrow>
                Some (st\<lparr>logged := logged st @ lines @
                        [(ErrorLevel, project @ '': parsing MAINTAINERS file failed: '' @ err)]\<rparr>)
            | Inr maintainers \<Rightarrow>
               (case mergeProject w project maintainers (projectMaintainers st) of
                  None \<Rightarrow> None
                | Some pm \<Rightarrow>
                    Some \<lparr>projectMaintainers = pm, logged = logged st @ lines\<rparr>))))"

fun run ::
  "'person world \<Rightarrow> string list \<Rightarrow> 'person run_state \<Rightarrow> 'person run_state option" where
  "run w [] st = Some st"
| "run w (p # ps) st = (case step w st p of None \<Rightarrow> None | Some st' \<Rightarrow> run w ps st')"

text \<open>Lines 80 to 87: the empty model with the two pseudo-groups.\<close>

definition initial :: "'person run_state" where
  "initial =
     \<lparr>projectMaintainers =
        \<lparr>OrgMap = [''Curators'' \<mapsto> \<lparr>People = []\<rparr>, ''Docs maintainers'' \<mapsto> \<lparr>People = []\<rparr>],
         PeopleMap = Map.empty\<rparr>,
      logged = []\<rparr>"

text \<open>\<open>m[key].People = removeDuplicates(m[key].People)\<close>, lines 135 and 136.\<close>

definition dedupPeople :: "string \<Rightarrow> (string \<rightharpoonup> Org) \<Rightarrow> (string \<rightharpoonup> Org) option" where
  "dedupPeople key m =
     (case m key of
        None \<Rightarrow> None
      | Some g \<Rightarrow> Some (m(key \<mapsto> \<lparr>People = removeDuplicates (People g)\<rparr>)))"

definition finish :: "'person run_state \<Rightarrow> 'person run_state option" where
  "finish st =
     (case dedupPeople ''Curators'' (OrgMap (projectMaintainers st)) of
        None \<Rightarrow> None
      | Some orgs1 \<Rightarrow>
         (case dedupPeople ''Docs maintainers'' orgs1 of
            None \<Rightarrow> None
          | Some orgs2 \<Rightarrow>
              Some (st\<lparr>projectMaintainers :=
                         \<lparr>OrgMap = orgs2, PeopleMap = PeopleMap (projectMaintainers st)\<rparr>\<rparr>)))"

text \<open>
  \<open>main\<close> up to line 136, with the list that the loop ranges over as a parameter: the
  combined model that is handed to the encoder, and the lines logged so far. \<open>None\<close>
  is a panic. (The encoding of the model and the writing of the file, lines 138 to 154,
  go through the external codec and file system.)
\<close>

definition aggregate :: "'person world \<Rightarrow> string list \<Rightarrow> 'person run_state option" where
  "aggregate w ps = (case run w ps initial of None \<Rightarrow> None | Some st \<Rightarrow> finish st)"

definition main :: "'person world \<Rightarrow> 'person run_state option" where
  "main w = aggregate w projects"

section \<open>Observations used in the statements\<close>

text \<open>The people list under a group key, and the record under a nick, after a run.\<close>

definition groupOf :: "string \<Rightarrow> 'person run_state option \<Rightarrow> string list option" where
  "groupOf key r =
     (case r of
        None \<Rightarrow> None
      | Some st \<Rightarrow>
         (case OrgMap (projectMaintainers st) key of None \<Rightarrow> None | Some g \<Rightarrow> Some (People g)))"

definition personOf :: "string \<Rightarrow> 'person run_state option \<Rightarrow> 'person option" where
  "personOf nick r =
     (case r of None \<Rightarrow> None | Some st \<Rightarrow> PeopleMap (projectMaintainers st) nick)"

definition modelOf :: "'person run_state option \<Rightarrow> 'person Maintainers option" where
  "modelOf r = (case r of None \<Rightarrow> None | Some st \<Rightarrow> Some (projectMaintainers st))"

text \<open>What one declaration appends to the two pseudo-groups (lines 121 to 127).\<close>

definition docsOf :: "'person MaintainersDepreciated \<Rightarrow> string list" where
  "docsOf maintainers =
     (case DocsMaintainers (Organization maintainers) of None \<Rightarrow> [] | Some d \<Rightarrow> People d)"

definition curatorsOf :: "'person MaintainersDepreciated \<Rightarrow> string list" where
  "curatorsOf maintainers =
     (case Curators (Organization maintainers) of None \<Rightarrow> [] | Some c \<Rightarrow> People c)"

text \<open>
  The projects of a list whose \<open>getMaintainers\<close> succeeds, in the order of the list,
  each as its bare name with its declaration.
\<close>

fun decoded ::
  "'person world \<Rightarrow> string list \<Rightarrow> (string \<times> 'person MaintainersDepreciated) list" where
  "decoded w [] = []"
| "decoded w (p # ps) =
     (case getProjectOrg p of (org, project) \<Rightarrow>
        (case snd (getMaintainers w org project) of
           Inl err \<Rightarrow> decoded w ps
         | Inr maintainers \<Rightarrow> (project, maintainers) # decoded w ps))"

text \<open>The loop on the model alone, over the decoded declarations.\<close>

fun mergeAll ::
  "'person world \<Rightarrow> (string \<times> 'person MaintainersDepreciated) list \<Rightarrow>
     'person Maintainers \<Rightarrow> 'person Maintainers option" where
  "mergeAll w [] pm = Some pm"
| "mergeAll w ((project, maintainers) # ds) pm =
     (case mergeProject w project maintainers pm of
        None \<Rightarrow> None
      | Some pm' \<Rightarrow> mergeAll w ds pm')"

section \<open>Example worlds\<close>

text \<open>
  Three declarations and three worlds on which the statements below are run. In
  \<open>world_demo\<close> the first project answers with \<open>demoA\<close>, \<open>cli\<close> fails in transport,
  \<open>compose\<close> answers with \<open>demoC\<close>, \<open>containerd/containerd\<close> with \<open>demoB\<close>, and every
  other URL returns a page that does not decode. The person records are plain strings.
  Every nick of the examples is ASCII, so \<open>Map_unicode_ToLower\<close> is never reached in
  them; the worlds hold the identity there.
\<close>

definition demoA :: "string MaintainersDepreciated" where
  "demoA =
     \<lparr>Organization =
        \<lparr>Maintainers = Some \<lparr>People = [''Zed'', ''amy'']\<rparr>,
         CoreMaintainers = Some \<lparr>People = [''bob'']\<rparr>,
         DocsMaintainers = Some \<lparr>People = [''Tom'']\<rparr>,
         Curators = Some \<lparr>People = [''Tom'', ''Sam'']\<rparr>\<rparr>,
      PeopleEntries = [(''Zed'', ''Zed Z''), (''amy'', ''Amy A''), (''Tom'', ''Tom v1'')]\<rparr>"

definition demoB :: "string MaintainersDepreciated" where
  "demoB =
     \<lparr>Organization =
        \<lparr>Maintainers = None,
         CoreMaintainers = Some \<lparr>People = [''Bob'', ''alice'']\<rparr>,
         DocsMaintainers = None,
         Curators = Some \<lparr>People = [''tom'']\<rparr>\<rparr>,
      PeopleEntries = [(''tom'', ''Tom v2''), (''Bob'', ''Bob B'')]\<rparr>"

definition demoC :: "string MaintainersDepreciated" where
  "demoC =
     \<lparr>Organization =
        \<lparr>Maintainers = None, CoreMaintainers = None, DocsMaintainers = None, Curators = None\<rparr>,
      PeopleEntries = [(''TOM'', ''Tom v3'')]\<rparr>"

definition world_demo :: "string world" where
  "world_demo =
     \<lparr>http_Get = (\<lambda>url.
        if url = fileUrl ''docker'' ''boot2docker'' then Inr (Inr ''payload A'')
        else if url = fileUrl ''docker'' ''cli'' then Inl ''dial tcp: i/o timeout''
        else if url = fileUrl ''docker'' ''compose'' then Inr (Inr ''payload C'')
        else if url = fileUrl ''containerd'' ''containerd'' then Inr (Inr ''payload B'')
        else Inr (Inr ''404: Not Found'')),
      toml_Decode = (\<lambda>file.
        if file = ''payload A'' then Inr demoA
        else if file = ''payload B'' then Inr demoB
        else if file = ''payload C'' then Inr demoC
        else Inl ''expected key separator''),
      Map_unicode_ToLower = (\<lambda>s. s)\<rparr>"

definition world_quiet :: "string world" where
  "world_quiet =
     \<lparr>http_Get = (\<lambda>url.
        if url = fileUrl ''docker'' ''compose'' then Inr (Inr ''payload C'')
        else Inl ''no such host''),
      toml_Decode = (\<lambda>file.
        if file = ''payload C'' then Inr demoC else Inl ''expected key separator''),
      Map_unicode_ToLower = (\<lambda>s. s)\<rparr>"

definition world_down :: "string world" where
  "world_down =
     \<lparr>http_Get = (\<lambda>url. Inl ''no such host''),
      toml_Decode = (\<lambda>file. Inl ''expected key separator''),
      Map_unicode_ToLower = (\<lambda>s. s)\<rparr>"

text \<open>
  A world with nicks that are not ASCII, given as their UTF-8 bytes: \<open>nickEmile\<close> is
  \<open>Emile\<close> with a capital E acute (c3 89), \<open>nickEmileLower\<close> the same with a small e acute
  (c3 a9), and \<open>nickKelvin\<close> the Kelvin sign U+212A (e2 84 aa), whose lowercase is the
  letter k. \<open>Map_unicode_ToLower\<close> of \<open>world_unicode\<close> holds what the library returns
  on these two strings. Here \<open>boot2docker\<close> answers with \<open>demoU1\<close> and \<open>cli\<close> with
  \<open>demoU2\<close>; nothing else is reached.
\<close>

definition nickEmile :: string where
  "nickEmile = [CHR 0xC3, CHR 0x89] @ ''mile''"

definition nickEmileLower :: string where
  "nickEmileLower = [CHR 0xC3, CHR 0xA9] @ ''mile''"

definition nickKelvin :: string where
  "nickKelvin = [CHR 0xE2, CHR 0x84, CHR 0xAA]"

definition demoU1 :: "string MaintainersDepreciated" where
  "demoU1 =
     \<lparr>Organization =
        \<lparr>Maintainers = Some \<lparr>People = [nickEmile, ''Zoe'']\<rparr>,
         CoreMaintainers = None, DocsMaintainers = None, Curators = None\<rparr>,
      PeopleEntries = [(''k'', ''Kay v1'')]\<rparr>"

definition demoU2 :: "string MaintainersDepreciated" where
  "demoU2 =
     \<lparr>Organization =
        \<lparr>Maintainers = None, CoreMaintainers = None, DocsMaintainers = None, Curators = None\<rparr>,
      PeopleEntries = [(nickKelvin, ''Kay v2'')]\<rparr>"

definition world_unicode :: "string world" where
  "world_unicode =
     \<lparr>http_Get = (\<lambda>url.
        if url = fileUrl ''docker'' ''boot2docker'' then Inr (Inr ''payload U1'')
        else if url = fileUrl ''docker'' ''cli'' then Inr (Inr ''payload U2'')
        else Inl ''no such host''),
      toml_Decode = (\<lambda>file.
        if file = ''payload U1'' then Inr demoU1
        else if file = ''payload U2'' then Inr demoU2
        else Inl ''expected key separator''),
      Map_unicode_ToLower = (\<lambda>s.
        if s = nickEmile then nickEmileLower
        else if s = nickKelvin then ''k''
        else s)\<rparr>"

section \<open>Properties of removeDuplicates\<close>

lemma removeDuplicates_loop_set:
  "dom seens = set uniqs \<Longrightarrow>
   set (removeDuplicates_loop seens uniqs slice) = set uniqs \<union> set slice"
proof (induction slice arbitrary: seens uniqs)
  case Nil
  then show ?case by simp
next
  case (Cons e slice)
  show ?case
  proof (cases "seens e")
    case None
    have "set (removeDuplicates_loop (seens(e \<mapsto> True)) (uniqs @ [e]) slice)
            = set (uniqs @ [e]) \<union> set slice"
    proof (rule Cons.IH)
      show "dom (seens(e \<mapsto> True)) = set (uniqs @ [e])"
        using Cons.prems by auto
    qed
    with None show ?thesis by simp
  next
    case (Some b)
    then have "e \<in> set uniqs" using Cons.prems by auto
    moreover have "set (removeDuplicates_loop seens uniqs slice) = set uniqs \<union> set slice"
      by (rule Cons.IH) (rule Cons.prems)
    ultimately show ?thesis using Some by (simp add: insert_absorb)
  qed
qed

lemma removeDuplicates_loop_distinct:
  "dom seens = set uniqs \<Longrightarrow> distinct uniqs \<Longrightarrow>
   distinct (removeDuplicates_loop seens uniqs slice)"
proof (induction slice arbitrary: seens uniqs)
  case Nil
  then show ?case by simp
next
  case (Cons e slice)
  show ?case
  proof (cases "seens e")
    case None
    then have "e \<notin> set uniqs" using Cons.prems(1) by auto
    then have d: "distinct (uniqs @ [e])" using Cons.prems(2) by simp
    have "distinct (removeDuplicates_loop (seens(e \<mapsto> True)) (uniqs @ [e]) slice)"
    proof (rule Cons.IH)
      show "dom (seens(e \<mapsto> True)) = set (uniqs @ [e])"
        using Cons.prems(1) by auto
    qed (rule d)
    with None show ?thesis by simp
  next
    case (Some b)
    with Cons.IH [OF Cons.prems] show ?thesis by simp
  qed
qed

lemma set_removeDuplicates: "set (removeDuplicates slice) = set slice"
  by (simp add: removeDuplicates_def removeDuplicates_loop_set)

lemma distinct_removeDuplicates: "distinct (removeDuplicates slice)"
  by (simp add: removeDuplicates_def removeDuplicates_loop_distinct)

lemma sorted_removeDuplicates: "sorted (removeDuplicates slice)"
  by (simp add: removeDuplicates_def)

lemma removeDuplicates_set_cong:
  assumes "set xs = set ys"
  shows "removeDuplicates xs = removeDuplicates ys"
proof (rule sorted_distinct_set_unique)
  show "set (removeDuplicates xs) = set (removeDuplicates ys)"
    unfolding set_removeDuplicates by (rule assms)
qed (rule sorted_removeDuplicates distinct_removeDuplicates)+

lemma removeDuplicates_idem:
  "removeDuplicates (removeDuplicates slice) = removeDuplicates slice"
  by (rule removeDuplicates_set_cong) (rule set_removeDuplicates)

text \<open>
  Claim C4. For every list of strings, \<open>removeDuplicates\<close> returns a list that is
  sorted ascending in the order of Go strings and has no repeated element, and applying
  \<open>removeDuplicates\<close> to its own output gives the same list.
\<close>

theorem removeDuplicates_sorted_distinct_idem:
  "sorted (removeDuplicates slice) \<and> distinct (removeDuplicates slice)
   \<and> removeDuplicates (removeDuplicates slice) = removeDuplicates slice"
  by (intro conjI sorted_removeDuplicates distinct_removeDuplicates removeDuplicates_idem)

section \<open>Properties of getProjectOrg\<close>

lemma Index_None: "Index s sep = None \<longleftrightarrow> sep \<notin> set s"
  by (induction s) (auto split: option.splits)

lemma Index_first: "sep \<notin> set l \<Longrightarrow> Index (l @ sep # r) sep = Some (length l)"
  by (induction l) auto

lemma getProjectOrg_slash:
  "CHR ''/'' \<notin> set l \<Longrightarrow> getProjectOrg (l @ CHR ''/'' # r) = (l, r)"
  by (simp add: getProjectOrg_def SplitN2_def Index_first)

lemma getProjectOrg_plain:
  "CHR ''/'' \<notin> set s \<Longrightarrow> getProjectOrg s = (defaultOrg, s)"
  using Index_None [of s "CHR ''/''"] by (simp add: getProjectOrg_def SplitN2_def)

text \<open>
  Claim C5. For every project identifier: if it contains a \<open>/\<close>, the organization is
  the part left of the first \<open>/\<close> and the name is everything right of it (first
  conjunct; the second gives the same for an identifier written as \<open>l/r\<close> with no
  \<open>/\<close> in \<open>l\<close>); otherwise the organization is the default one, \<open>docker\<close>, and the
  name is the whole identifier.
\<close>

theorem getProjectOrg_spec:
  "(CHR ''/'' \<in> set project \<longrightarrow>
      (\<exists>l r. project = l @ ''/'' @ r \<and> CHR ''/'' \<notin> set l \<and> getProjectOrg project = (l, r)))
   \<and> (CHR ''/'' \<notin> set l \<longrightarrow> getProjectOrg (l @ ''/'' @ r) = (l, r))
   \<and> (CHR ''/'' \<notin> set project \<longrightarrow> getProjectOrg project = (''docker'', project))"
proof (intro conjI impI)
  assume "CHR ''/'' \<in> set project"
  then obtain l r where "project = l @ CHR ''/'' # r" "CHR ''/'' \<notin> set l"
    by (auto dest: split_list_first)
  then show "\<exists>l r. project = l @ ''/'' @ r \<and> CHR ''/'' \<notin> set l \<and> getProjectOrg project = (l, r)"
    using getProjectOrg_slash [of l r] by simp
next
  assume "CHR ''/'' \<notin> set l"
  then show "getProjectOrg (l @ ''/'' @ r) = (l, r)"
    using getProjectOrg_slash [of l r] by simp
next
  assume "CHR ''/'' \<notin> set project"
  then show "getProjectOrg project = (''docker'', project)"
    using getProjectOrg_plain [of project] by (simp add: defaultOrg_def)
qed

theorem getProjectOrg_spec_witness:
  "getProjectOrg ''bar/baz'' = (''bar'', ''baz'') \<and> getProjectOrg ''foo'' = (''docker'', ''foo'')
   \<and> getProjectOrg ''a/b/c'' = (''a'', ''b/c'')"
  using getProjectOrg_spec [of "''foo''" "''bar''" "''baz''"]
    getProjectOrg_spec [of "''a/b/c''" "''a''" "''b/c''"]
  by simp

section \<open>The aggregation loop\<close>

subsection \<open>The people of one declaration\<close>

lemma addPeople_append: "addPeople w pm (xs @ ys) = addPeople w (addPeople w pm xs) ys"
  by (induction xs arbitrary: pm) auto

lemma addPeople_other:
  "k \<notin> ToLower w ` fst ` set es \<Longrightarrow> addPeople w pm es k = pm k"
  by (induction es arbitrary: pm) auto

lemma addPeople_last:
  "k \<in> ToLower w ` fst ` set es \<Longrightarrow>
   (\<forall>(n, v') \<in> set es. ToLower w n = k \<longrightarrow> v' = v) \<Longrightarrow>
   addPeople w pm es k = Some v"
proof (induction es arbitrary: pm)
  case Nil
  then show ?case by simp
next
  case (Cons e rest)
  obtain nick person where e: "e = (nick, person)" by (cases e)
  show ?case
  proof (cases "k \<in> ToLower w ` fst ` set rest")
    case True
    have "addPeople w (pm(ToLower w nick \<mapsto> person)) rest k = Some v"
      by (rule Cons.IH) (use True Cons.prems(2) in auto)
    then show ?thesis by (simp add: e)
  next
    case False
    then have k: "ToLower w nick = k" using Cons.prems(1) by (simp add: e)
    then have "person = v" using Cons.prems(2) by (simp add: e)
    with k False show ?thesis by (simp add: e addPeople_other)
  qed
qed

subsection \<open>One merged declaration\<close>

lemma mergeProject_People:
  "mergeProject w project m pm = Some pm' \<Longrightarrow>
   PeopleMap pm' = addPeople w (PeopleMap pm) (PeopleEntries m)"
  by (auto simp: mergeProject_def Let_def split: option.splits)

lemma appendPeople_dom:
  "appendPeople key extra orgs = Some orgs' \<Longrightarrow> dom orgs' = dom orgs"
  by (auto simp: appendPeople_def split: option.splits if_splits)

lemma appendPeople_other:
  "appendPeople key extra orgs = Some orgs' \<Longrightarrow> k \<noteq> key \<Longrightarrow> orgs' k = orgs k"
  by (auto simp: appendPeople_def split: option.splits)

lemma appendPeople_key:
  "appendPeople key extra orgs = Some orgs' \<Longrightarrow> orgs key = Some g \<Longrightarrow>
   orgs' key = Some \<lparr>People = People g @ extra\<rparr>"
  by (auto simp: appendPeople_def split: option.splits)

lemma appendPeople_total:
  "key \<in> dom orgs \<Longrightarrow> \<exists>orgs'. appendPeople key extra orgs = Some orgs'"
  by (auto simp: appendPeople_def split: option.splits)

lemma mergeProject_other:
  "mergeProject w project m pm = Some pm' \<Longrightarrow>
   k \<noteq> project \<Longrightarrow> k \<noteq> ''Curators'' \<Longrightarrow> k \<noteq> ''Docs maintainers'' \<Longrightarrow>
   OrgMap pm' k = OrgMap pm k"
  by (auto simp: mergeProject_def Let_def appendPeople_def split: option.splits)

lemma mergeProject_project:
  "mergeProject w project m pm = Some pm' \<Longrightarrow>
   project \<noteq> ''Curators'' \<Longrightarrow> project \<noteq> ''Docs maintainers'' \<Longrightarrow>
   OrgMap pm' project = Some (normalizePeople w (projectOrg m))"
  by (auto simp: mergeProject_def Let_def appendPeople_def split: option.splits)

lemma mergeProject_Curators:
  "mergeProject w project m pm = Some pm' \<Longrightarrow> project \<noteq> ''Curators'' \<Longrightarrow>
   OrgMap pm ''Curators'' = Some g \<Longrightarrow>
   OrgMap pm' ''Curators'' = Some \<lparr>People = People g @ curatorsOf m\<rparr>"
  by (auto simp: mergeProject_def Let_def appendPeople_def curatorsOf_def split: option.splits)

lemma mergeProject_Docs:
  "mergeProject w project m pm = Some pm' \<Longrightarrow> project \<noteq> ''Docs maintainers'' \<Longrightarrow>
   OrgMap pm ''Docs maintainers'' = Some g \<Longrightarrow>
   OrgMap pm' ''Docs maintainers'' = Some \<lparr>People = People g @ docsOf m\<rparr>"
  by (auto simp: mergeProject_def Let_def appendPeople_def docsOf_def split: option.splits)

lemma optAppend_dom:
  assumes "(case x of None \<Rightarrow> Some orgs | Some d \<Rightarrow> appendPeople key (People d) orgs) = Some orgs'"
  shows "dom orgs' = dom orgs"
proof (cases x)
  case None
  then show ?thesis using assms by simp
next
  case (Some d)
  then have "appendPeople key (People d) orgs = Some orgs'" using assms by simp
  then show ?thesis by (rule appendPeople_dom)
qed

lemma optAppend_total:
  assumes "key \<in> dom orgs"
  shows "\<exists>orgs'. (case x of None \<Rightarrow> Some orgs | Some d \<Rightarrow> appendPeople key (People d) orgs)
           = Some orgs'"
  using appendPeople_total [OF assms] by (cases x) simp_all

lemma mergeProject_dom:
  assumes "mergeProject w project m pm = Some pm'"
  shows "dom (OrgMap pm') = insert project (dom (OrgMap pm))"
proof -
  let ?orgs1 = "(OrgMap pm)(project \<mapsto> normalizePeople w (projectOrg m))"
  from assms obtain orgs2 orgs3 where
    o2: "(case DocsMaintainers (Organization m) of None \<Rightarrow> Some ?orgs1
          | Some d \<Rightarrow> appendPeople ''Docs maintainers'' (People d) ?orgs1) = Some orgs2" and
    o3: "(case Curators (Organization m) of None \<Rightarrow> Some orgs2
          | Some c \<Rightarrow> appendPeople ''Curators'' (People c) orgs2) = Some orgs3" and
    pm': "OrgMap pm' = orgs3"
    unfolding mergeProject_def Let_def by (auto split: option.splits)
  have "dom orgs3 = dom orgs2" using o3 by (rule optAppend_dom)
  also have "\<dots> = dom ?orgs1" using o2 by (rule optAppend_dom)
  also have "\<dots> = insert project (dom (OrgMap pm))" by simp
  finally show ?thesis by (simp add: pm')
qed

lemma mergeProject_total:
  assumes "''Curators'' \<in> dom (OrgMap pm)" "''Docs maintainers'' \<in> dom (OrgMap pm)"
  shows "\<exists>pm'. mergeProject w project m pm = Some pm'"
proof -
  let ?orgs1 = "(OrgMap pm)(project \<mapsto> normalizePeople w (projectOrg m))"
  have d1: "''Docs maintainers'' \<in> dom ?orgs1" and c1: "''Curators'' \<in> dom ?orgs1"
    using assms by auto
  obtain orgs2 where o2:
    "(case DocsMaintainers (Organization m) of None \<Rightarrow> Some ?orgs1
      | Some d \<Rightarrow> appendPeople ''Docs maintainers'' (People d) ?orgs1) = Some orgs2"
    using optAppend_total [OF d1] by blast
  then have "dom orgs2 = dom ?orgs1" by (rule optAppend_dom)
  with c1 have c2: "''Curators'' \<in> dom orgs2" by simp
  obtain orgs3 where o3:
    "(case Curators (Organization m) of None \<Rightarrow> Some orgs2
      | Some c \<Rightarrow> appendPeople ''Curators'' (People c) orgs2) = Some orgs3"
    using optAppend_total [OF c2] by blast
  show ?thesis
    unfolding mergeProject_def Let_def o2 using o3 by simp
qed

subsection \<open>All merged declarations\<close>

lemma mergeAll_append:
  "mergeAll w (ds1 @ ds2) pm =
     (case mergeAll w ds1 pm of None \<Rightarrow> None | Some pm1 \<Rightarrow> mergeAll w ds2 pm1)"
  by (induction ds1 arbitrary: pm) (auto split: option.splits)

lemma mergeAll_dom:
  "mergeAll w ds pm = Some pm' \<Longrightarrow> dom (OrgMap pm') = dom (OrgMap pm) \<union> fst ` set ds"
proof (induction ds arbitrary: pm)
  case Nil
  then show ?case by simp
next
  case (Cons d ds)
  obtain project m where d: "d = (project, m)" by (cases d)
  from Cons.prems obtain pm1 where
    s1: "mergeProject w project m pm = Some pm1" and s2: "mergeAll w ds pm1 = Some pm'"
    by (auto simp: d split: option.splits)
  have "dom (OrgMap pm') = dom (OrgMap pm1) \<union> fst ` set ds"
    using s2 by (rule Cons.IH)
  also have "dom (OrgMap pm1) = insert project (dom (OrgMap pm))"
    using s1 by (rule mergeProject_dom)
  finally show ?case by (simp add: d)
qed

lemma mergeAll_total:
  "''Curators'' \<in> dom (OrgMap pm) \<Longrightarrow> ''Docs maintainers'' \<in> dom (OrgMap pm) \<Longrightarrow>
   \<exists>pm'. mergeAll w ds pm = Some pm'"
proof (induction ds arbitrary: pm)
  case Nil
  then show ?case by simp
next
  case (Cons d ds)
  obtain project m where d: "d = (project, m)" by (cases d)
  obtain pm1 where s1: "mergeProject w project m pm = Some pm1"
    using mergeProject_total [OF Cons.prems] by blast
  then have "dom (OrgMap pm1) = insert project (dom (OrgMap pm))"
    by (rule mergeProject_dom)
  with Cons.prems have "''Curators'' \<in> dom (OrgMap pm1)" "''Docs maintainers'' \<in> dom (OrgMap pm1)"
    by simp_all
  then have "\<exists>pm'. mergeAll w ds pm1 = Some pm'" by (rule Cons.IH)
  then show ?case by (simp add: d s1)
qed

lemma mergeAll_other:
  "mergeAll w ds pm = Some pm' \<Longrightarrow> k \<notin> fst ` set ds \<Longrightarrow>
   k \<noteq> ''Curators'' \<Longrightarrow> k \<noteq> ''Docs maintainers'' \<Longrightarrow> OrgMap pm' k = OrgMap pm k"
proof (induction ds arbitrary: pm)
  case Nil
  then show ?case by simp
next
  case (Cons d ds)
  obtain project m where d: "d = (project, m)" by (cases d)
  from Cons.prems(1) obtain pm1 where
    s1: "mergeProject w project m pm = Some pm1" and s2: "mergeAll w ds pm1 = Some pm'"
    by (auto simp: d split: option.splits)
  have "OrgMap pm' k = OrgMap pm1 k"
    using Cons.IH [OF s2] Cons.prems(2-4) by simp
  also have "\<dots> = OrgMap pm k"
    using mergeProject_other [OF s1, of k] Cons.prems(2-4) by (simp add: d)
  finally show ?case .
qed

lemma mergeAll_Curators:
  "mergeAll w ds pm = Some pm' \<Longrightarrow> ''Curators'' \<notin> fst ` set ds \<Longrightarrow>
   OrgMap pm ''Curators'' = Some g \<Longrightarrow>
   OrgMap pm' ''Curators'' = Some \<lparr>People = People g @ concat (map (\<lambda>d. curatorsOf (snd d)) ds)\<rparr>"
proof (induction ds arbitrary: pm g)
  case Nil
  then show ?case by simp
next
  case (Cons d ds)
  obtain project m where d: "d = (project, m)" by (cases d)
  from Cons.prems(1) obtain pm1 where
    s1: "mergeProject w project m pm = Some pm1" and s2: "mergeAll w ds pm1 = Some pm'"
    by (auto simp: d split: option.splits)
  have ne: "project \<noteq> ''Curators''" using Cons.prems(2) by (auto simp: d)
  have g1: "OrgMap pm1 ''Curators'' = Some \<lparr>People = People g @ curatorsOf m\<rparr>"
    using s1 ne Cons.prems(3) by (rule mergeProject_Curators)
  have "OrgMap pm' ''Curators'' =
          Some \<lparr>People = People \<lparr>People = People g @ curatorsOf m\<rparr>
                  @ concat (map (\<lambda>d. curatorsOf (snd d)) ds)\<rparr>"
    using s2 _ g1 by (rule Cons.IH) (use Cons.prems(2) in simp)
  then show ?case by (simp add: d)
qed

lemma mergeAll_Docs:
  "mergeAll w ds pm = Some pm' \<Longrightarrow> ''Docs maintainers'' \<notin> fst ` set ds \<Longrightarrow>
   OrgMap pm ''Docs maintainers'' = Some g \<Longrightarrow>
   OrgMap pm' ''Docs maintainers'' = Some \<lparr>People = People g @ concat (map (\<lambda>d. docsOf (snd d)) ds)\<rparr>"
proof (induction ds arbitrary: pm g)
  case Nil
  then show ?case by simp
next
  case (Cons d ds)
  obtain project m where d: "d = (project, m)" by (cases d)
  from Cons.prems(1) obtain pm1 where
    s1: "mergeProject w project m pm = Some pm1" and s2: "mergeAll w ds pm1 = Some pm'"
    by (auto simp: d split: option.splits)
  have ne: "project \<noteq> ''Docs maintainers''" using Cons.prems(2) by (auto simp: d)
  have g1: "OrgMap pm1 ''Docs maintainers'' = Some \<lparr>People = People g @ docsOf m\<rparr>"
    using s1 ne Cons.prems(3) by (rule mergeProject_Docs)
  have "OrgMap pm' ''Docs maintainers'' =
          Some \<lparr>People = People \<lparr>People = People g @ docsOf m\<rparr>
                  @ concat (map (\<lambda>d. docsOf (snd d)) ds)\<rparr>"
    using s2 _ g1 by (rule Cons.IH) (use Cons.prems(2) in simp)
  then show ?case by (simp add: d)
qed

lemma mergeAll_People:
  "mergeAll w ds pm = Some pm' \<Longrightarrow>
   PeopleMap pm' = addPeople w (PeopleMap pm) (concat (map (\<lambda>d. PeopleEntries (snd d)) ds))"
proof (induction ds arbitrary: pm)
  case Nil
  then show ?case by simp
next
  case (Cons d ds)
  obtain project m where d: "d = (project, m)" by (cases d)
  from Cons.prems(1) obtain pm1 where
    s1: "mergeProject w project m pm = Some pm1" and s2: "mergeAll w ds pm1 = Some pm'"
    by (auto simp: d split: option.splits)
  show ?case
    using Cons.IH [OF s2] mergeProject_People [OF s1] by (simp add: d addPeople_append)
qed

lemma mergeAll_project:
  assumes "mergeAll w (ds1 @ (project, m) # ds2) pm = Some pm'"
    and "project \<notin> fst ` set ds2"
    and "project \<noteq> ''Curators''" "project \<noteq> ''Docs maintainers''"
  shows "OrgMap pm' project = Some (normalizePeople w (projectOrg m))"
proof -
  from assms(1) obtain pm1 pm2 where
    s1: "mergeAll w ds1 pm = Some pm1" and
    s2: "mergeProject w project m pm1 = Some pm2" and
    s3: "mergeAll w ds2 pm2 = Some pm'"
    by (auto simp: mergeAll_append split: option.splits)
  have "OrgMap pm' project = OrgMap pm2 project"
    using s3 assms(2-4) by (rule mergeAll_other)
  also have "\<dots> = Some (normalizePeople w (projectOrg m))"
    using s2 assms(3,4) by (rule mergeProject_project)
  finally show ?thesis .
qed

subsection \<open>The loop, its log and the final pass\<close>

lemma step_fail:
  "getProjectOrg p = (org, project) \<Longrightarrow> getMaintainers w org project = (lines, Inl err) \<Longrightarrow>
   step w st p =
     Some (st\<lparr>logged := logged st @ lines @
             [(ErrorLevel, project @ '': parsing MAINTAINERS file failed: '' @ err)]\<rparr>)"
  by (simp add: step_def)

lemma step_ok:
  "getProjectOrg p = (org, project) \<Longrightarrow> getMaintainers w org project = (lines, Inr m) \<Longrightarrow>
   step w st p =
     (case mergeProject w project m (projectMaintainers st) of
        None \<Rightarrow> None
      | Some pm \<Rightarrow> Some \<lparr>projectMaintainers = pm, logged = logged st @ lines\<rparr>)"
  by (simp add: step_def)

lemma run_model:
  "modelOf (run w ps st) = mergeAll w (decoded w ps) (projectMaintainers st)"
proof (induction ps arbitrary: st)
  case Nil
  show ?case by (simp add: modelOf_def)
next
  case (Cons p ps)
  obtain org project where po: "getProjectOrg p = (org, project)" by (cases "getProjectOrg p")
  obtain lines res where gm: "getMaintainers w org project = (lines, res)"
    by (cases "getMaintainers w org project")
  show ?case
  proof (cases res)
    case (Inl err)
    have "step w st p =
        Some (st\<lparr>logged := logged st @ lines @
             [(ErrorLevel, project @ '': parsing MAINTAINERS file failed: '' @ err)]\<rparr>)"
      using po gm unfolding Inl by (rule step_fail)
    then show ?thesis using Cons.IH po gm Inl by simp
  next
    case (Inr m)
    have s: "step w st p =
      (case mergeProject w project m (projectMaintainers st) of
        None \<Rightarrow> None
      | Some pm \<Rightarrow> Some \<lparr>projectMaintainers = pm, logged = logged st @ lines\<rparr>)"
      using po gm unfolding Inr by (rule step_ok)
    show ?thesis
    proof (cases "mergeProject w project m (projectMaintainers st)")
      case None
      then show ?thesis using s po gm Inr by (simp add: modelOf_def)
    next
      case (Some pm)
      then show ?thesis using s po gm Inr Cons.IH by simp
    qed
  qed
qed

lemma step_logged:
  "step w st p = Some st' \<Longrightarrow> set (logged st) \<subseteq> set (logged st')"
  by (auto simp: step_def split: prod.splits sum.splits option.splits)

lemma run_logged:
  "run w ps st = Some st' \<Longrightarrow> set (logged st) \<subseteq> set (logged st')"
proof (induction ps arbitrary: st)
  case Nil
  then show ?case by simp
next
  case (Cons p ps)
  from Cons.prems obtain st1 where s1: "step w st p = Some st1" and s2: "run w ps st1 = Some st'"
    by (auto split: option.splits)
  show ?case using step_logged [OF s1] Cons.IH [OF s2] by blast
qed

lemma run_error_logged:
  "run w ps st = Some st' \<Longrightarrow> p \<in> set ps \<Longrightarrow> getProjectOrg p = (org, project) \<Longrightarrow>
   snd (getMaintainers w org project) = Inl err \<Longrightarrow>
   (ErrorLevel, project @ '': parsing MAINTAINERS file failed: '' @ err) \<in> set (logged st')"
proof (induction ps arbitrary: st)
  case Nil
  then show ?case by simp
next
  case (Cons q ps)
  from Cons.prems(1) obtain st1 where s1: "step w st q = Some st1" and s2: "run w ps st1 = Some st'"
    by (auto split: option.splits)
  show ?case
  proof (cases "q = p")
    case True
    obtain lines where "getMaintainers w org project = (lines, Inl err)"
      using Cons.prems(4) by (cases "getMaintainers w org project") simp
    with Cons.prems(3) have
      "step w st p = Some (st\<lparr>logged := logged st @ lines @
             [(ErrorLevel, project @ '': parsing MAINTAINERS file failed: '' @ err)]\<rparr>)"
      by (rule step_fail)
    with s1 True have
      "(ErrorLevel, project @ '': parsing MAINTAINERS file failed: '' @ err) \<in> set (logged st1)"
      by auto
    then show ?thesis using run_logged [OF s2] by blast
  next
    case False
    with Cons.prems(2) have "p \<in> set ps" by simp
    with s2 show ?thesis using Cons.prems(3,4) by (rule Cons.IH)
  qed
qed

lemma finish_Some:
  assumes "OrgMap (projectMaintainers st) ''Curators'' = Some c"
    and "OrgMap (projectMaintainers st) ''Docs maintainers'' = Some d"
  shows "finish st =
    Some (st\<lparr>projectMaintainers :=
      \<lparr>OrgMap = (OrgMap (projectMaintainers st))
          (''Curators'' \<mapsto> \<lparr>People = removeDuplicates (People c)\<rparr>,
           ''Docs maintainers'' \<mapsto> \<lparr>People = removeDuplicates (People d)\<rparr>),
       PeopleMap = PeopleMap (projectMaintainers st)\<rparr>\<rparr>)"
  using assms by (simp add: finish_def dedupPeople_def)

lemma decoded_names:
  "fst ` set (decoded w ps) \<subseteq> (\<lambda>p. snd (getProjectOrg p)) ` set ps"
proof (induction ps)
  case Nil
  show ?case by simp
next
  case (Cons p ps)
  obtain org project where po: "getProjectOrg p = (org, project)" by (cases "getProjectOrg p")
  show ?case
  proof (cases "snd (getMaintainers w org project)")
    case (Inl err)
    then show ?thesis using Cons.IH po by auto
  next
    case (Inr m)
    then show ?thesis using Cons.IH po by auto
  qed
qed

lemma decoded_append: "decoded w (ps @ qs) = decoded w ps @ decoded w qs"
  by (induction ps) (auto split: prod.splits sum.splits)

lemma decoded_removeAll:
  "getProjectOrg p = (org, project) \<Longrightarrow> snd (getMaintainers w org project) = Inl err \<Longrightarrow>
   decoded w (removeAll p ps) = decoded w ps"
  by (induction ps) (auto split: prod.splits sum.splits)

subsection \<open>The configured list\<close>

lemma projects_names:
  "map (\<lambda>p. snd (getProjectOrg p)) projects =
     [''boot2docker'', ''cli'', ''compose'', ''compose-on-kubernetes'',
      ''containerd'', ''distribution'', ''docker-bench-security'',
      ''docker-credential-helpers'', ''docker-py'', ''dockercraft'', ''go-connections'',
      ''go-events'', ''go-healthcheck'', ''go-p9p'', ''go-plugins-helpers'', ''go-units'',
      ''infrakit'', ''kitematic'', ''leadership'', ''leeroy'', ''libchan'', ''libcompose'',
      ''libkv'', ''libnetwork'', ''linuxkit'', ''machine'', ''migrator'',
      ''datakit'', ''hyperkit'', ''moby'', ''vpnkit'', ''spdystream'',
      ''swarm'', ''swarmkit'', ''swarm-frontends'', ''notary'',
      ''toolbox'', ''v1.10-migrator'']"
  by (simp add: projects_def getProjectOrg_def SplitN2_def)

lemma projects_names_distinct: "distinct (map (\<lambda>p. snd (getProjectOrg p)) projects)"
  unfolding projects_names by simp

lemma projects_names_not_pseudo:
  "''Curators'' \<notin> (\<lambda>p. snd (getProjectOrg p)) ` set projects"
  "''Docs maintainers'' \<notin> (\<lambda>p. snd (getProjectOrg p)) ` set projects"
  unfolding set_map [symmetric] projects_names by simp_all

subsection \<open>The result of a run\<close>

lemma initial_groups:
  "OrgMap (projectMaintainers initial) ''Curators'' = Some \<lparr>People = []\<rparr>"
  "OrgMap (projectMaintainers initial) ''Docs maintainers'' = Some \<lparr>People = []\<rparr>"
  "PeopleMap (projectMaintainers initial) = Map.empty"
  "logged initial = []"
  by (simp_all add: initial_def)

lemma initial_dom:
  "dom (OrgMap (projectMaintainers initial)) = {''Curators'', ''Docs maintainers''}"
  by (auto simp: initial_def split: if_splits)

lemma run_total: "\<exists>st. run w ps initial = Some st"
proof -
  have "\<exists>pm. mergeAll w (decoded w ps) (projectMaintainers initial) = Some pm"
    by (rule mergeAll_total) (simp_all add: initial_dom)
  then have "modelOf (run w ps initial) \<noteq> None" by (simp add: run_model)
  then show ?thesis by (cases "run w ps initial") (simp_all add: modelOf_def)
qed

lemma run_initial:
  obtains st pm where "run w ps initial = Some st" "projectMaintainers st = pm"
    "mergeAll w (decoded w ps) (projectMaintainers initial) = Some pm"
proof -
  obtain st where st: "run w ps initial = Some st" using run_total by blast
  have "modelOf (run w ps initial) = mergeAll w (decoded w ps) (projectMaintainers initial)"
    by (rule run_model)
  then have "mergeAll w (decoded w ps) (projectMaintainers initial) = Some (projectMaintainers st)"
    by (simp add: st modelOf_def)
  with st show ?thesis using that by blast
qed

lemma aggregate_char:
  assumes nc: "''Curators'' \<notin> fst ` set (decoded w ps)"
    and nd: "''Docs maintainers'' \<notin> fst ` set (decoded w ps)"
  obtains st pm where
    "run w ps initial = Some st"
    "mergeAll w (decoded w ps) (projectMaintainers initial) = Some pm"
    "OrgMap pm ''Curators'' =
       Some \<lparr>People = concat (map (\<lambda>d. curatorsOf (snd d)) (decoded w ps))\<rparr>"
    "OrgMap pm ''Docs maintainers'' =
       Some \<lparr>People = concat (map (\<lambda>d. docsOf (snd d)) (decoded w ps))\<rparr>"
    "aggregate w ps =
       Some (st\<lparr>projectMaintainers :=
         \<lparr>OrgMap = (OrgMap pm)
            (''Curators'' \<mapsto>
               \<lparr>People = removeDuplicates (concat (map (\<lambda>d. curatorsOf (snd d)) (decoded w ps)))\<rparr>,
             ''Docs maintainers'' \<mapsto>
               \<lparr>People = removeDuplicates (concat (map (\<lambda>d. docsOf (snd d)) (decoded w ps)))\<rparr>),
          PeopleMap = PeopleMap pm\<rparr>\<rparr>)"
proof -
  obtain st pm where st: "run w ps initial = Some st" and pm: "projectMaintainers st = pm"
    and ma: "mergeAll w (decoded w ps) (projectMaintainers initial) = Some pm"
    by (rule run_initial)
  have c: "OrgMap pm ''Curators'' =
       Some \<lparr>People = People \<lparr>People = []\<rparr> @ concat (map (\<lambda>d. curatorsOf (snd d)) (decoded w ps))\<rparr>"
    using ma nc initial_groups(1) by (rule mergeAll_Curators)
  have d: "OrgMap pm ''Docs maintainers'' =
       Some \<lparr>People = People \<lparr>People = []\<rparr> @ concat (map (\<lambda>d. docsOf (snd d)) (decoded w ps))\<rparr>"
    using ma nd initial_groups(2) by (rule mergeAll_Docs)
  have c': "OrgMap (projectMaintainers st) ''Curators'' =
       Some \<lparr>People = concat (map (\<lambda>d. curatorsOf (snd d)) (decoded w ps))\<rparr>"
    using c by (simp add: pm)
  have d': "OrgMap (projectMaintainers st) ''Docs maintainers'' =
       Some \<lparr>People = concat (map (\<lambda>d. docsOf (snd d)) (decoded w ps))\<rparr>"
    using d by (simp add: pm)
  have "aggregate w ps = finish st" by (simp add: aggregate_def st)
  also note finish_Some [OF c' d']
  finally have "aggregate w ps =
       Some (st\<lparr>projectMaintainers :=
         \<lparr>OrgMap = (OrgMap pm)
            (''Curators'' \<mapsto>
               \<lparr>People = removeDuplicates (concat (map (\<lambda>d. curatorsOf (snd d)) (decoded w ps)))\<rparr>,
             ''Docs maintainers'' \<mapsto>
               \<lparr>People = removeDuplicates (concat (map (\<lambda>d. docsOf (snd d)) (decoded w ps)))\<rparr>),
          PeopleMap = PeopleMap pm\<rparr>\<rparr>)"
    by (simp add: pm)
  with st ma c d show ?thesis using that by simp
qed

lemma groupOf_Curators:
  assumes "''Curators'' \<notin> fst ` set (decoded w ps)"
    and "''Docs maintainers'' \<notin> fst ` set (decoded w ps)"
  shows "groupOf ''Curators'' (aggregate w ps) =
     Some (removeDuplicates (concat (map (\<lambda>d. curatorsOf (snd d)) (decoded w ps))))"
  by (rule aggregate_char [OF assms]) (simp add: groupOf_def)

lemma groupOf_Docs:
  assumes "''Curators'' \<notin> fst ` set (decoded w ps)"
    and "''Docs maintainers'' \<notin> fst ` set (decoded w ps)"
  shows "groupOf ''Docs maintainers'' (aggregate w ps) =
     Some (removeDuplicates (concat (map (\<lambda>d. docsOf (snd d)) (decoded w ps))))"
  by (rule aggregate_char [OF assms]) (simp add: groupOf_def)

lemma groupOf_project:
  assumes "''Curators'' \<notin> fst ` set (decoded w ps)"
    and "''Docs maintainers'' \<notin> fst ` set (decoded w ps)"
    and dec: "decoded w ps = ds1 @ (project, m) # ds2"
    and last: "project \<notin> fst ` set ds2"
    and np: "project \<noteq> ''Curators''" "project \<noteq> ''Docs maintainers''"
  shows "groupOf project (aggregate w ps) = Some (sort (map (ToLower w) (People (projectOrg m))))"
proof (rule aggregate_char [OF assms(1,2)])
  fix st pm
  assume ma: "mergeAll w (decoded w ps) (projectMaintainers initial) = Some pm"
    and ag: "aggregate w ps =
       Some (st\<lparr>projectMaintainers :=
         \<lparr>OrgMap = (OrgMap pm)
            (''Curators'' \<mapsto>
               \<lparr>People = removeDuplicates (concat (map (\<lambda>d. curatorsOf (snd d)) (decoded w ps)))\<rparr>,
             ''Docs maintainers'' \<mapsto>
               \<lparr>People = removeDuplicates (concat (map (\<lambda>d. docsOf (snd d)) (decoded w ps)))\<rparr>),
          PeopleMap = PeopleMap pm\<rparr>\<rparr>)"
  have "OrgMap pm project = Some (normalizePeople w (projectOrg m))"
    using ma [unfolded dec] last np by (rule mergeAll_project)
  then show ?thesis using np by (simp add: ag groupOf_def normalizePeople_def)
qed

lemma groupOf_absent:
  assumes "''Curators'' \<notin> fst ` set (decoded w ps)"
    and "''Docs maintainers'' \<notin> fst ` set (decoded w ps)"
    and nk: "k \<notin> fst ` set (decoded w ps)"
    and np: "k \<noteq> ''Curators''" "k \<noteq> ''Docs maintainers''"
  shows "groupOf k (aggregate w ps) = None"
proof (rule aggregate_char [OF assms(1,2)])
  fix st pm
  assume ma: "mergeAll w (decoded w ps) (projectMaintainers initial) = Some pm"
    and ag: "aggregate w ps =
       Some (st\<lparr>projectMaintainers :=
         \<lparr>OrgMap = (OrgMap pm)
            (''Curators'' \<mapsto>
               \<lparr>People = removeDuplicates (concat (map (\<lambda>d. curatorsOf (snd d)) (decoded w ps)))\<rparr>,
             ''Docs maintainers'' \<mapsto>
               \<lparr>People = removeDuplicates (concat (map (\<lambda>d. docsOf (snd d)) (decoded w ps)))\<rparr>),
          PeopleMap = PeopleMap pm\<rparr>\<rparr>)"
  have "OrgMap pm k = None"
    using mergeAll_other [OF ma nk np] np by (simp add: initial_def)
  then show ?thesis using np by (simp add: ag groupOf_def)
qed

lemma personOf_aggregate:
  assumes "''Curators'' \<notin> fst ` set (decoded w ps)"
    and "''Docs maintainers'' \<notin> fst ` set (decoded w ps)"
  shows "personOf k (aggregate w ps) =
     addPeople w Map.empty (concat (map (\<lambda>d. PeopleEntries (snd d)) (decoded w ps))) k"
proof (rule aggregate_char [OF assms(1,2)])
  fix st pm
  assume ma: "mergeAll w (decoded w ps) (projectMaintainers initial) = Some pm"
    and ag: "aggregate w ps =
       Some (st\<lparr>projectMaintainers :=
         \<lparr>OrgMap = (OrgMap pm)
            (''Curators'' \<mapsto>
               \<lparr>People = removeDuplicates (concat (map (\<lambda>d. curatorsOf (snd d)) (decoded w ps)))\<rparr>,
             ''Docs maintainers'' \<mapsto>
               \<lparr>People = removeDuplicates (concat (map (\<lambda>d. docsOf (snd d)) (decoded w ps)))\<rparr>),
          PeopleMap = PeopleMap pm\<rparr>\<rparr>)"
  show ?thesis
    using mergeAll_People [OF ma] by (simp add: ag personOf_def initial_groups)
qed

section \<open>The example worlds, evaluated\<close>

lemma fileUrl_eq:
  "fileUrl org project = fileUrl org' project' \<longleftrightarrow> org @ ''/'' @ project = org' @ ''/'' @ project'"
proof -
  have "fileUrl org project = (ghRawUri @ ''/'') @ (org @ ''/'' @ project) @ ''/master/MAINTAINERS''"
    by (simp add: fileUrl_def)
  moreover have "fileUrl org' project' = (ghRawUri @ ''/'') @ (org' @ ''/'' @ project') @ ''/master/MAINTAINERS''"
    by (simp add: fileUrl_def)
  ultimately show ?thesis
    by (simp only: same_append_eq append_same_eq)
qed

lemma demo_fetch:
  "snd (getMaintainers world_demo ''docker'' ''boot2docker'') = Inr demoA"
  "snd (getMaintainers world_demo ''containerd'' ''containerd'') = Inr demoB"
  "snd (getMaintainers world_demo ''docker'' ''compose'') = Inr demoC"
  "snd (getMaintainers world_demo ''docker'' ''cli'') = Inl ''docker/cli: dial tcp: i/o timeout''"
  by (simp_all add: getMaintainers_def fileUrl_eq world_demo_def)

lemma demo_decoded:
  "decoded world_demo projects =
     [(''boot2docker'', demoA), (''compose'', demoC), (''containerd'', demoB)]"
  by (simp add: projects_def getProjectOrg_def SplitN2_def defaultOrg_def getMaintainers_def
      fileUrl_eq world_demo_def)

lemma demo_decoded_rest:
  "projects =
     [''boot2docker'', ''cli'', ''compose'', ''compose-on-kubernetes'']
       @ ''containerd/containerd'' # drop 5 projects"
  "decoded world_demo (drop 5 projects) = []"
  by (simp_all add: projects_def getProjectOrg_def SplitN2_def defaultOrg_def getMaintainers_def
      fileUrl_eq world_demo_def)

lemma quiet_decoded: "decoded world_quiet projects = [(''compose'', demoC)]"
  by (simp add: projects_def getProjectOrg_def SplitN2_def defaultOrg_def getMaintainers_def
      fileUrl_eq world_quiet_def)

lemma down_decoded: "decoded world_down ps = []"
  by (induction ps) (simp_all add: getMaintainers_def world_down_def split: prod.splits)

lemma unicode_fetch:
  "snd (getMaintainers world_unicode ''docker'' ''boot2docker'') = Inr demoU1"
  "snd (getMaintainers world_unicode ''docker'' ''cli'') = Inr demoU2"
  by (simp_all add: getMaintainers_def fileUrl_eq world_unicode_def)

lemma unicode_decoded_rest:
  "projects = [''boot2docker''] @ ''cli'' # drop 2 projects"
  "decoded world_unicode (drop 2 projects) = []"
  by (simp_all add: projects_def getProjectOrg_def SplitN2_def defaultOrg_def getMaintainers_def
      fileUrl_eq world_unicode_def)

lemma unicode_lower:
  "ToLower world_unicode nickEmile = nickEmileLower"
  "ToLower world_unicode ''Zoe'' = ''zoe''"
  "ToLower world_unicode nickKelvin = ''k''"
  "ToLower world_unicode ''k'' = ''k''"
  by code_simp+

lemma demo_split:
  "getProjectOrg ''boot2docker'' = (''docker'', ''boot2docker'')"
  "getProjectOrg ''cli'' = (''docker'', ''cli'')"
  "getProjectOrg ''compose'' = (''docker'', ''compose'')"
  "getProjectOrg ''containerd/containerd'' = (''containerd'', ''containerd'')"
  by (simp_all add: getProjectOrg_def SplitN2_def defaultOrg_def)

lemma demo_lower:
  "ToLower world_demo ''Zed'' = ''zed''" "ToLower world_demo ''amy'' = ''amy''"
  "ToLower world_demo ''Tom'' = ''tom''" "ToLower world_demo ''TOM'' = ''tom''"
  "ToLower world_demo ''tom'' = ''tom''" "ToLower world_demo ''Sam'' = ''sam''"
  "ToLower world_demo ''Bob'' = ''bob''" "ToLower world_demo ''alice'' = ''alice''"
  by code_simp+

section \<open>Runs over the configured list\<close>

lemma main_no_pseudo:
  "''Curators'' \<notin> fst ` set (decoded w projects)"
  "''Docs maintainers'' \<notin> fst ` set (decoded w projects)"
  using decoded_names [of w projects] projects_names_not_pseudo by blast+

lemma projects_split:
  assumes "p \<in> set projects"
  obtains before after where "projects = before @ p # after"
    "snd (getProjectOrg p) \<notin> (\<lambda>q. snd (getProjectOrg q)) ` set before"
    "snd (getProjectOrg p) \<notin> (\<lambda>q. snd (getProjectOrg q)) ` set after"
proof -
  from assms obtain before after where sp: "projects = before @ p # after"
    by (auto dest: split_list)
  have "distinct (map (\<lambda>q. snd (getProjectOrg q)) (before @ p # after))"
    using projects_names_distinct by (simp only: sp)
  then have "snd (getProjectOrg p) \<notin> (\<lambda>q. snd (getProjectOrg q)) ` set before"
    "snd (getProjectOrg p) \<notin> (\<lambda>q. snd (getProjectOrg q)) ` set after"
    by auto
  with sp show ?thesis using that by blast
qed

lemma projects_not_pseudo:
  assumes "p \<in> set projects"
  shows "snd (getProjectOrg p) \<noteq> ''Curators''" "snd (getProjectOrg p) \<noteq> ''Docs maintainers''"
  using imageI [OF assms, of "\<lambda>p. snd (getProjectOrg p)"] projects_names_not_pseudo
  by metis+

lemma decoded_one_ok:
  "getProjectOrg p = (org, project) \<Longrightarrow> snd (getMaintainers w org project) = Inr m \<Longrightarrow>
   decoded w (before @ p # after) = decoded w before @ (project, m) # decoded w after"
  by (simp add: decoded_append)

lemma decoded_one_fail:
  "getProjectOrg p = (org, project) \<Longrightarrow> snd (getMaintainers w org project) = Inl err \<Longrightarrow>
   decoded w (before @ p # after) = decoded w before @ decoded w after"
  by (simp add: decoded_append)

lemma main_project_group:
  assumes p: "p \<in> set projects"
    and po: "getProjectOrg p = (org, project)"
    and ok: "snd (getMaintainers w org project) = Inr m"
  shows "groupOf project (main w) = Some (sort (map (ToLower w) (People (projectOrg m))))"
proof -
  obtain before after where sp: "projects = before @ p # after"
    and na: "snd (getProjectOrg p) \<notin> (\<lambda>q. snd (getProjectOrg q)) ` set after"
    using p by (rule projects_split)
  have dec: "decoded w projects = decoded w before @ (project, m) # decoded w after"
    unfolding sp using po ok by (rule decoded_one_ok)
  have last: "project \<notin> fst ` set (decoded w after)"
    using na decoded_names [of w after] by (auto simp: po)
  have np: "project \<noteq> ''Curators''" "project \<noteq> ''Docs maintainers''"
    using projects_not_pseudo [OF p] by (simp_all add: po)
  show ?thesis
    unfolding main_def using main_no_pseudo dec last np by (rule groupOf_project)
qed

lemma main_failed_absent:
  assumes p: "p \<in> set projects"
    and po: "getProjectOrg p = (org, project)"
    and fail: "snd (getMaintainers w org project) = Inl err"
  shows "groupOf project (main w) = None"
proof -
  obtain before after where sp: "projects = before @ p # after"
    and nb: "snd (getProjectOrg p) \<notin> (\<lambda>q. snd (getProjectOrg q)) ` set before"
    and na: "snd (getProjectOrg p) \<notin> (\<lambda>q. snd (getProjectOrg q)) ` set after"
    using p by (rule projects_split)
  have dec: "decoded w projects = decoded w before @ decoded w after"
    unfolding sp using po fail by (rule decoded_one_fail)
  have nk: "project \<notin> fst ` set (decoded w projects)"
    using nb na decoded_names [of w before] decoded_names [of w after]
    by (auto simp: po dec)
  have np: "project \<noteq> ''Curators''" "project \<noteq> ''Docs maintainers''"
    using projects_not_pseudo [OF p] by (simp_all add: po)
  show ?thesis
    unfolding main_def using main_no_pseudo nk np by (rule groupOf_absent)
qed

lemma finish_model:
  "projectMaintainers st = projectMaintainers st' \<Longrightarrow> modelOf (finish st) = modelOf (finish st')"
  by (simp add: finish_def modelOf_def split: option.splits)

lemma aggregate_model_cong:
  assumes "decoded w ps = decoded w qs"
  shows "modelOf (aggregate w ps) = modelOf (aggregate w qs)"
proof -
  obtain st where st: "run w ps initial = Some st" using run_total by blast
  obtain st' where st': "run w qs initial = Some st'" using run_total by blast
  have "modelOf (run w ps initial) = modelOf (run w qs initial)"
    by (simp only: run_model assms)
  then have "projectMaintainers st = projectMaintainers st'"
    by (simp add: st st' modelOf_def)
  then have "modelOf (finish st) = modelOf (finish st')" by (rule finish_model)
  then show ?thesis by (simp add: aggregate_def st st')
qed

lemma main_Some: "\<exists>st. main w = Some st"
  by (rule aggregate_char [OF main_no_pseudo [of w]]) (simp add: main_def)

lemma main_logged:
  assumes "main w = Some st"
  obtains st0 where "run w projects initial = Some st0" "logged st = logged st0"
proof -
  obtain st0 where st0: "run w projects initial = Some st0" using run_total by blast
  with assms have "finish st0 = Some st" by (simp add: main_def aggregate_def)
  then have "logged st = logged st0"
    by (auto simp: finish_def split: option.splits)
  with st0 show ?thesis using that by blast
qed

section \<open>Primary maintainers before legacy core maintainers\<close>

text \<open>
  Claim C2. For a declaration with both a primary-maintainers group and a legacy
  core-maintainers group, the group built for the project is the primary people list
  alone; the legacy list is taken exactly when the primary group is absent. The third
  conjunct follows the built group to the end of the run: what is stored for the
  project is the primary list, lowercased and sorted, whatever the legacy group holds.
\<close>

theorem primary_over_legacy:
  "(Maintainers (Organization m) = Some primary \<longrightarrow>
      CoreMaintainers (Organization m) = Some legacy \<longrightarrow>
      projectOrg m = \<lparr>People = People primary\<rparr>)
   \<and> (Maintainers (Organization m) = None \<longrightarrow>
      CoreMaintainers (Organization m) = Some legacy \<longrightarrow>
      projectOrg m = \<lparr>People = People legacy\<rparr>)
   \<and> (p \<in> set projects \<longrightarrow> getProjectOrg p = (org, project) \<longrightarrow>
      snd (getMaintainers w org project) = Inr m \<longrightarrow>
      Maintainers (Organization m) = Some primary \<longrightarrow>
      groupOf project (main w) = Some (sort (map (ToLower w) (People primary))))"
proof (intro conjI impI)
  assume "Maintainers (Organization m) = Some primary"
  then show "projectOrg m = \<lparr>People = People primary\<rparr>"
    by (simp add: projectOrg_def)
next
  assume "Maintainers (Organization m) = None" "CoreMaintainers (Organization m) = Some legacy"
  then show "projectOrg m = \<lparr>People = People legacy\<rparr>"
    by (simp add: projectOrg_def)
next
  assume "p \<in> set projects" "getProjectOrg p = (org, project)"
    "snd (getMaintainers w org project) = Inr m"
  then have "groupOf project (main w) = Some (sort (map (ToLower w) (People (projectOrg m))))"
    by (rule main_project_group)
  moreover assume "Maintainers (Organization m) = Some primary"
  ultimately show "groupOf project (main w) = Some (sort (map (ToLower w) (People primary)))"
    by (simp add: projectOrg_def)
qed

theorem primary_over_legacy_witness:
  "projectOrg demoA = \<lparr>People = [''Zed'', ''amy'']\<rparr>
   \<and> projectOrg demoB = \<lparr>People = [''Bob'', ''alice'']\<rparr>
   \<and> groupOf ''boot2docker'' (main world_demo) = Some [''amy'', ''zed'']
   \<and> groupOf ''boot2docker'' (main world_unicode) = Some [''zoe'', nickEmileLower]"
  using primary_over_legacy [where m = demoA and primary = "\<lparr>People = [''Zed'', ''amy'']\<rparr>"
      and legacy = "\<lparr>People = [''bob'']\<rparr>" and p = "''boot2docker''" and org = "''docker''"
      and project = "''boot2docker''" and w = world_demo]
    primary_over_legacy [where m = demoB and legacy = "\<lparr>People = [''Bob'', ''alice'']\<rparr>"]
    primary_over_legacy [where m = demoU1 and primary = "\<lparr>People = [nickEmile, ''Zoe'']\<rparr>"
      and p = "''boot2docker''" and org = "''docker''" and project = "''boot2docker''"
      and w = world_unicode]
  by (simp add: demo_fetch demo_split demo_lower unicode_fetch unicode_lower nickEmileLower_def
      projects_def demoA_def demoB_def demoU1_def)

section \<open>The stored project group\<close>

text \<open>
  Claim C6. For every configured project that is fetched and decoded, the people of
  its group are lowercased, sorted ascending, and stored under the bare project name;
  an identifier with an organization prefix is itself no key of the result.
\<close>

theorem project_group_stored:
  assumes "p \<in> set projects"
    and "getProjectOrg p = (org, project)"
    and "snd (getMaintainers w org project) = Inr m"
  shows "groupOf project (main w) = Some (sort (map (ToLower w) (People (projectOrg m))))
    \<and> (CHR ''/'' \<in> set p \<longrightarrow> groupOf p (main w) = None)"
proof
  show "groupOf project (main w) = Some (sort (map (ToLower w) (People (projectOrg m))))"
    using assms by (rule main_project_group)
  show "CHR ''/'' \<in> set p \<longrightarrow> groupOf p (main w) = None"
  proof
    assume sl: "CHR ''/'' \<in> set p"
    have "\<forall>n \<in> set (map (\<lambda>q. snd (getProjectOrg q)) projects). CHR ''/'' \<notin> set n"
      unfolding projects_names by simp
    then have "p \<notin> (\<lambda>q. snd (getProjectOrg q)) ` set projects"
      using sl by auto
    then have nk: "p \<notin> fst ` set (decoded w projects)"
      using decoded_names [of w projects] by blast
    have np: "p \<noteq> ''Curators''" "p \<noteq> ''Docs maintainers''"
      using sl by auto
    show "groupOf p (main w) = None"
      unfolding main_def using main_no_pseudo nk np by (rule groupOf_absent)
  qed
qed

theorem project_group_stored_witness:
  "groupOf ''containerd'' (main world_demo) = Some [''alice'', ''bob'']
   \<and> groupOf ''containerd/containerd'' (main world_demo) = None
   \<and> groupOf ''boot2docker'' (main world_unicode) = Some [''zoe'', nickEmileLower]"
  using project_group_stored [of "''containerd/containerd''" "''containerd''" "''containerd''"
      world_demo demoB]
    project_group_stored [of "''boot2docker''" "''docker''" "''boot2docker''" world_unicode demoU1]
  by (simp add: demo_fetch demo_split demo_lower unicode_fetch unicode_lower nickEmileLower_def
      projects_def projectOrg_def demoB_def demoU1_def)

text \<open>
  Claim C10. A configured project that is fetched and decoded and has neither a
  primary nor a legacy group still gets its key, with an empty people list.
\<close>

theorem empty_group_stored:
  assumes "p \<in> set projects"
    and "getProjectOrg p = (org, project)"
    and "snd (getMaintainers w org project) = Inr m"
    and "Maintainers (Organization m) = None"
    and "CoreMaintainers (Organization m) = None"
  shows "groupOf project (main w) = Some []"
proof -
  have "groupOf project (main w) = Some (sort (map (ToLower w) (People (projectOrg m))))"
    using assms(1-3) by (rule main_project_group)
  then show ?thesis using assms(4,5) by (simp add: projectOrg_def)
qed

theorem empty_group_stored_witness:
  "groupOf ''compose'' (main world_demo) = Some []"
  using empty_group_stored [of "''compose''" "''docker''" "''compose''" world_demo demoC]
  by (simp add: demo_fetch demo_split projects_def demoC_def)

lemma getMaintainers_error_context:
  "snd (getMaintainers w org project) = Inl err \<Longrightarrow>
   \<exists>msg. err = org @ ''/'' @ project @ '': '' @ msg"
  by (auto simp: getMaintainers_def split: sum.splits)

section \<open>Failed projects\<close>

text \<open>
  Claim C7. For a configured project whose \<open>getMaintainers\<close> fails: the run ends
  normally and has logged an error line with the project name, and the error carries
  \<open>org/project\<close>; the iteration leaves the model as it was, from whatever state;
  the result has no key for the project; and the final model is the one obtained with
  the project struck from the list, so nothing else is affected.
\<close>

theorem failed_project_skipped:
  assumes "p \<in> set projects"
    and "getProjectOrg p = (org, project)"
    and "snd (getMaintainers w org project) = Inl err"
  shows "(\<exists>st. main w = Some st
            \<and> (ErrorLevel, project @ '': parsing MAINTAINERS file failed: '' @ err)
                 \<in> set (logged st))
    \<and> (\<exists>msg. err = org @ ''/'' @ project @ '': '' @ msg)
    \<and> (\<exists>st'. step w st0 p = Some st' \<and> projectMaintainers st' = projectMaintainers st0)
    \<and> groupOf project (main w) = None
    \<and> modelOf (main w) = modelOf (aggregate w (removeAll p projects))"
proof (intro conjI)
  obtain st where st: "main w = Some st" using main_Some by blast
  then obtain st1 where r: "run w projects initial = Some st1" and l: "logged st = logged st1"
    by (rule main_logged)
  have "(ErrorLevel, project @ '': parsing MAINTAINERS file failed: '' @ err) \<in> set (logged st1)"
    using r assms by (rule run_error_logged)
  with st l show "\<exists>st. main w = Some st
            \<and> (ErrorLevel, project @ '': parsing MAINTAINERS file failed: '' @ err)
                 \<in> set (logged st)"
    by simp
next
  show "\<exists>msg. err = org @ ''/'' @ project @ '': '' @ msg"
    using assms(3) by (rule getMaintainers_error_context)
next
  obtain lines where "getMaintainers w org project = (lines, Inl err)"
    using assms(3) by (cases "getMaintainers w org project") simp
  with assms(2) have "step w st0 p =
      Some (st0\<lparr>logged := logged st0 @ lines @
             [(ErrorLevel, project @ '': parsing MAINTAINERS file failed: '' @ err)]\<rparr>)"
    by (rule step_fail)
  then show "\<exists>st'. step w st0 p = Some st' \<and> projectMaintainers st' = projectMaintainers st0"
    by simp
next
  show "groupOf project (main w) = None"
    using assms by (rule main_failed_absent)
next
  have "decoded w (removeAll p projects) = decoded w projects"
    using assms(2,3) by (rule decoded_removeAll)
  then have "modelOf (aggregate w projects) = modelOf (aggregate w (removeAll p projects))"
    by (intro aggregate_model_cong) simp
  then show "modelOf (main w) = modelOf (aggregate w (removeAll p projects))"
    by (simp add: main_def)
qed

theorem failed_project_skipped_witness:
  "(\<exists>st. main world_demo = Some st
       \<and> (ErrorLevel, ''cli: parsing MAINTAINERS file failed: docker/cli: dial tcp: i/o timeout'')
            \<in> set (logged st))
   \<and> groupOf ''cli'' (main world_demo) = None
   \<and> modelOf (main world_demo) = modelOf (aggregate world_demo (removeAll ''cli'' projects))"
  using failed_project_skipped [of "''cli''" "''docker''" "''cli''" world_demo
      "''docker/cli: dial tcp: i/o timeout''" initial]
  by (simp add: demo_fetch demo_split projects_def)

section \<open>The pseudo-groups\<close>

text \<open>
  Claim C8. At the end of the loop the two pseudo-groups hold the curators and the
  docs maintainers of the decoded projects, as decoded and in the configured order;
  only then \<open>removeDuplicates\<close> is applied to each; and its result depends on the set
  of the appended strings alone.
\<close>

theorem pseudo_groups_appended_then_deduplicated:
  "(\<exists>st. run w projects initial = Some st
        \<and> OrgMap (projectMaintainers st) ''Curators'' =
            Some \<lparr>People = concat (map (\<lambda>d. curatorsOf (snd d)) (decoded w projects))\<rparr>
        \<and> OrgMap (projectMaintainers st) ''Docs maintainers'' =
            Some \<lparr>People = concat (map (\<lambda>d. docsOf (snd d)) (decoded w projects))\<rparr>
        \<and> main w = finish st)
   \<and> groupOf ''Curators'' (main w) =
        Some (removeDuplicates (concat (map (\<lambda>d. curatorsOf (snd d)) (decoded w projects))))
   \<and> groupOf ''Docs maintainers'' (main w) =
        Some (removeDuplicates (concat (map (\<lambda>d. docsOf (snd d)) (decoded w projects))))
   \<and> (set xs = set ys \<longrightarrow> removeDuplicates xs = removeDuplicates ys)"
proof (intro conjI impI)
  show "\<exists>st. run w projects initial = Some st
        \<and> OrgMap (projectMaintainers st) ''Curators'' =
            Some \<lparr>People = concat (map (\<lambda>d. curatorsOf (snd d)) (decoded w projects))\<rparr>
        \<and> OrgMap (projectMaintainers st) ''Docs maintainers'' =
            Some \<lparr>People = concat (map (\<lambda>d. docsOf (snd d)) (decoded w projects))\<rparr>
        \<and> main w = finish st"
  proof (rule aggregate_char [OF main_no_pseudo [of w]])
    fix st pm
    assume st: "run w projects initial = Some st"
      and ma: "mergeAll w (decoded w projects) (projectMaintainers initial) = Some pm"
      and c: "OrgMap pm ''Curators'' =
         Some \<lparr>People = concat (map (\<lambda>d. curatorsOf (snd d)) (decoded w projects))\<rparr>"
      and d: "OrgMap pm ''Docs maintainers'' =
         Some \<lparr>People = concat (map (\<lambda>d. docsOf (snd d)) (decoded w projects))\<rparr>"
    have "modelOf (run w projects initial) = mergeAll w (decoded w projects) (projectMaintainers initial)"
      by (rule run_model)
    then have "projectMaintainers st = pm" by (simp add: st ma modelOf_def)
    moreover have "main w = finish st" by (simp add: main_def aggregate_def st)
    ultimately show ?thesis using st c d by simp
  qed
next
  show "groupOf ''Curators'' (main w) =
        Some (removeDuplicates (concat (map (\<lambda>d. curatorsOf (snd d)) (decoded w projects))))"
    unfolding main_def using main_no_pseudo by (rule groupOf_Curators)
next
  show "groupOf ''Docs maintainers'' (main w) =
        Some (removeDuplicates (concat (map (\<lambda>d. docsOf (snd d)) (decoded w projects))))"
    unfolding main_def using main_no_pseudo by (rule groupOf_Docs)
next
  assume "set xs = set ys"
  then show "removeDuplicates xs = removeDuplicates ys" by (rule removeDuplicates_set_cong)
qed

theorem pseudo_groups_appended_then_deduplicated_witness:
  "groupOf ''Curators'' (main world_demo) = Some [''Sam'', ''Tom'', ''tom'']
   \<and> groupOf ''Docs maintainers'' (main world_demo) = Some [''Tom'']
   \<and> removeDuplicates [''Tom'', ''Sam'', ''tom'', ''Tom''] = removeDuplicates [''tom'', ''Sam'', ''Tom'']"
  using pseudo_groups_appended_then_deduplicated [of world_demo
      "[''Tom'', ''Sam'', ''tom'', ''Tom'']" "[''tom'', ''Sam'', ''Tom'']"]
  by (simp add: demo_decoded curatorsOf_def docsOf_def demoA_def demoB_def demoC_def
      removeDuplicates_def insert_commute)

text \<open>
  Claim C9. Both pseudo-group keys are set, with empty lists, before the loop, and are
  present in the result of every run; they are empty when no project is decoded, and
  when no decoded project declares curators or docs maintainers.
\<close>

theorem pseudo_groups_present:
  fixes w :: "'person world"
  shows "OrgMap (projectMaintainers (initial :: 'person run_state)) ''Curators''
       = Some \<lparr>People = []\<rparr>
   \<and> OrgMap (projectMaintainers (initial :: 'person run_state)) ''Docs maintainers''
       = Some \<lparr>People = []\<rparr>
   \<and> (\<exists>c d. groupOf ''Curators'' (main w) = Some c
            \<and> groupOf ''Docs maintainers'' (main w) = Some d)
   \<and> (decoded w projects = [] \<longrightarrow>
        groupOf ''Curators'' (main w) = Some []
        \<and> groupOf ''Docs maintainers'' (main w) = Some [])
   \<and> ((\<forall>d \<in> set (decoded w projects).
          Curators (Organization (snd d)) = None
          \<and> DocsMaintainers (Organization (snd d)) = None) \<longrightarrow>
        groupOf ''Curators'' (main w) = Some []
        \<and> groupOf ''Docs maintainers'' (main w) = Some [])"
proof -
  have c: "groupOf ''Curators'' (main w) =
        Some (removeDuplicates (concat (map (\<lambda>d. curatorsOf (snd d)) (decoded w projects))))"
    unfolding main_def using main_no_pseudo by (rule groupOf_Curators)
  have d: "groupOf ''Docs maintainers'' (main w) =
        Some (removeDuplicates (concat (map (\<lambda>d. docsOf (snd d)) (decoded w projects))))"
    unfolding main_def using main_no_pseudo by (rule groupOf_Docs)
  have e: "removeDuplicates [] = []" by (simp add: removeDuplicates_def)
  have none: "groupOf ''Curators'' (main w) = Some []
        \<and> groupOf ''Docs maintainers'' (main w) = Some []"
    if "\<forall>d \<in> set (decoded w projects).
          Curators (Organization (snd d)) = None
          \<and> DocsMaintainers (Organization (snd d)) = None"
  proof -
    from that have "concat (map (\<lambda>d. curatorsOf (snd d)) (decoded w projects)) = []"
      "concat (map (\<lambda>d. docsOf (snd d)) (decoded w projects)) = []"
      by (simp_all add: curatorsOf_def docsOf_def)
    then show ?thesis unfolding c d by (simp only: e simp_thms)
  qed
  show ?thesis
  proof (intro conjI impI)
    show "\<exists>c d. groupOf ''Curators'' (main w) = Some c
            \<and> groupOf ''Docs maintainers'' (main w) = Some d"
      using c d by blast
  next
    assume "decoded w projects = []"
    then show "groupOf ''Curators'' (main w) = Some []"
      "groupOf ''Docs maintainers'' (main w) = Some []"
      by (simp_all add: c d e)
  next
    assume "\<forall>d \<in> set (decoded w projects).
          Curators (Organization (snd d)) = None
          \<and> DocsMaintainers (Organization (snd d)) = None"
    then show "groupOf ''Curators'' (main w) = Some []"
      "groupOf ''Docs maintainers'' (main w) = Some []"
      using none by simp_all
  qed (simp_all add: initial_groups)
qed

theorem pseudo_groups_present_witness:
  "decoded world_down projects = []
   \<and> groupOf ''Curators'' (main world_down) = Some []
   \<and> groupOf ''Docs maintainers'' (main world_down) = Some []
   \<and> decoded world_quiet projects = [(''compose'', demoC)]
   \<and> groupOf ''Curators'' (main world_quiet) = Some []
   \<and> groupOf ''Docs maintainers'' (main world_quiet) = Some []"
  using pseudo_groups_present [of world_down] pseudo_groups_present [of world_quiet]
  by (simp add: down_decoded quiet_decoded demoC_def)

section \<open>The global person mapping\<close>

text \<open>
  Claim C3 as stated (for every pair of projects that both have an entry for a nick,
  the final entry is that of the later one) fails when a third project follows: in
  \<open>world_demo\<close> the projects at positions 0 and 2 both have an entry that lowercases
  to \<open>tom\<close>, and the final entry is that of \<open>containerd/containerd\<close>, processed
  after both.
\<close>

theorem last_writer_counterexample:
  "projects ! 0 = ''boot2docker'' \<and> projects ! 2 = ''compose''
   \<and> snd (getMaintainers world_demo ''docker'' ''boot2docker'') = Inr demoA
   \<and> snd (getMaintainers world_demo ''docker'' ''compose'') = Inr demoC
   \<and> PeopleEntries demoA = [(''Zed'', ''Zed Z''), (''amy'', ''Amy A''), (''Tom'', ''Tom v1'')]
   \<and> PeopleEntries demoC = [(''TOM'', ''Tom v3'')]
   \<and> ToLower world_demo ''Tom'' = ''tom'' \<and> ToLower world_demo ''TOM'' = ''tom''
   \<and> personOf ''tom'' (main world_demo) = Some ''Tom v2''
   \<and> personOf ''tom'' (main world_demo) \<noteq> Some ''Tom v3''"
proof -
  have "personOf ''tom'' (main world_demo) =
      addPeople world_demo Map.empty
        (concat (map (\<lambda>d. PeopleEntries (snd d)) (decoded world_demo projects))) ''tom''"
    unfolding main_def using main_no_pseudo by (rule personOf_aggregate)
  then have "personOf ''tom'' (main world_demo) = Some ''Tom v2''"
    by (simp add: demo_decoded demoA_def demoB_def demoC_def demo_lower)
  then show ?thesis
    by (simp add: demo_fetch demo_lower projects_def demoA_def demoC_def)
qed

text \<open>
  Claim C3, amended. Let \<open>p2\<close> be a configured project whose declaration has a person
  entry; no matter which earlier projects have an entry for the same lowercased nick,
  if no project decoded after \<open>p2\<close> has one, and the entries of \<open>p2\<close> that lowercase
  to it carry one record, then the final entry under the lowercased nick is that record.
\<close>

theorem last_writer_wins:
  assumes "projects = before @ p2 # after"
    and "getProjectOrg p2 = (org2, project2)"
    and "snd (getMaintainers w org2 project2) = Inr m2"
    and "(nick2, person2) \<in> set (PeopleEntries m2)"
    and "\<forall>(n, v) \<in> set (PeopleEntries m2). ToLower w n = ToLower w nick2 \<longrightarrow> v = person2"
    and "ToLower w nick2 \<notin>
           ToLower w ` fst ` set (concat (map (\<lambda>d. PeopleEntries (snd d)) (decoded w after)))"
  shows "personOf (ToLower w nick2) (main w) = Some person2"
proof -
  let ?entries = "\<lambda>ds. concat (map (\<lambda>d. PeopleEntries (snd d)) ds)"
  have dec: "decoded w projects = decoded w before @ (project2, m2) # decoded w after"
    unfolding assms(1) using assms(2,3) by (rule decoded_one_ok)
  have "personOf (ToLower w nick2) (main w) =
          addPeople w Map.empty (?entries (decoded w projects)) (ToLower w nick2)"
    unfolding main_def using main_no_pseudo by (rule personOf_aggregate)
  also have "?entries (decoded w projects) =
          (?entries (decoded w before) @ PeopleEntries m2) @ ?entries (decoded w after)"
    by (simp add: dec)
  also have "addPeople w Map.empty \<dots> (ToLower w nick2) =
          addPeople w (addPeople w Map.empty (?entries (decoded w before))) (PeopleEntries m2)
            (ToLower w nick2)"
    by (simp only: addPeople_append addPeople_other [OF assms(6)])
  also have "\<dots> = Some person2"
  proof (rule addPeople_last)
    show "ToLower w nick2 \<in> ToLower w ` fst ` set (PeopleEntries m2)"
      using assms(4) by force
  qed (rule assms(5))
  finally show ?thesis .
qed

theorem last_writer_wins_witness:
  "personOf ''tom'' (main world_demo) = Some ''Tom v2''
   \<and> personOf ''k'' (main world_unicode) = Some ''Kay v2''"
  using last_writer_wins [OF demo_decoded_rest(1), where ?org2.0 = "''containerd''"
      and ?project2.0 = "''containerd''" and w = world_demo and ?m2.0 = demoB
      and ?nick2.0 = "''tom''" and ?person2.0 = "''Tom v2''"]
    last_writer_wins [OF unicode_decoded_rest(1), where ?org2.0 = "''docker''"
      and ?project2.0 = "''cli''" and w = world_unicode and ?m2.0 = demoU2
      and ?nick2.0 = nickKelvin and ?person2.0 = "''Kay v2''"]
  by (simp add: demo_fetch demo_split demo_lower demo_decoded_rest(2) demoB_def
      unicode_fetch unicode_lower unicode_decoded_rest(2) demoU2_def)

section \<open>Lowercase nicks\<close>

text \<open>
  A nick is in lowercase form when \<open>ToLower\<close> keeps it. Lowercasing an ASCII nick gives
  such a form; so the keys of the person mapping and the people of the project groups
  are in lowercase form wherever lowercasing twice is lowercasing once, as it is on
  ASCII nicks.
\<close>

lemma toLowerByte_idem: "toLowerByte (toLowerByte c) = toLowerByte c"
proof (cases "CHR ''A'' \<le> c \<and> c \<le> CHR ''Z''")
  case True
  then have r: "65 \<le> (of_char c :: nat)" "(of_char c :: nat) \<le> 90"
    by (simp_all add: less_eq_char_def)
  have "(of_char (char_of (of_char c + (32::nat))) :: nat) = of_char c + 32"
    using r by simp
  then have "\<not> (char_of (of_char c + (32::nat)) \<le> CHR ''Z'')"
    using r by (simp add: less_eq_char_def)
  then show ?thesis using True by (simp add: toLowerByte_def)
next
  case False
  then have "toLowerByte c = c" by (auto simp: toLowerByte_def)
  then show ?thesis by simp
qed

lemma toLowerByte_ascii:
  assumes "of_char c < (128::nat)"
  shows "of_char (toLowerByte c) < (128::nat)"
proof (cases "CHR ''A'' \<le> c \<and> c \<le> CHR ''Z''")
  case True
  then have r: "(of_char c :: nat) \<le> 90"
    by (simp add: less_eq_char_def)
  have "(of_char (char_of (of_char c + (32::nat))) :: nat) = of_char c + 32"
    using r by simp
  then show ?thesis using True r by (simp add: toLowerByte_def)
next
  case False
  then have "toLowerByte c = c" by (auto simp: toLowerByte_def)
  then show ?thesis using assms by simp
qed

lemma isASCII_map_toLowerByte: "isASCII s \<Longrightarrow> isASCII (map toLowerByte s)"
  by (induction s) (simp_all add: isASCII_def toLowerByte_ascii)

lemma ToLower_ascii: "isASCII s \<Longrightarrow> ToLower w s = map toLowerByte s"
  by (simp add: ToLower_def)

lemma ToLower_ascii_idem:
  assumes "isASCII s"
  shows "ToLower w (ToLower w s) = ToLower w s"
proof -
  have "ToLower w (map toLowerByte s) = map toLowerByte (map toLowerByte s)"
    using assms by (intro ToLower_ascii isASCII_map_toLowerByte)
  then show ?thesis using assms by (simp add: ToLower_ascii toLowerByte_idem)
qed

lemma addPeople_keys:
  "addPeople w pm es k = Some v \<Longrightarrow> pm k = Some v \<or> k \<in> ToLower w ` fst ` set es"
proof (induction es arbitrary: pm)
  case Nil
  then show ?case by simp
next
  case (Cons e es)
  obtain nick person where e: "e = (nick, person)" by (cases e)
  from Cons.prems have "addPeople w (pm(ToLower w nick \<mapsto> person)) es k = Some v"
    by (simp add: e)
  then have "(pm(ToLower w nick \<mapsto> person)) k = Some v \<or> k \<in> ToLower w ` fst ` set es"
    by (rule Cons.IH)
  then show ?case by (auto simp: e split: if_splits)
qed

lemma sort_map_ToLower_fixed:
  assumes "\<And>s. ToLower w (ToLower w s) = ToLower w s"
    and "n \<in> set (sort (map (ToLower w) xs))"
  shows "ToLower w n = n"
  using assms by auto

lemma people_keys_lowercase:
  assumes "\<And>s. ToLower w (ToLower w s) = ToLower w s"
    and "personOf k (main w) = Some v"
  shows "ToLower w k = k"
proof -
  have "personOf k (main w) =
      addPeople w Map.empty
        (concat (map (\<lambda>d. PeopleEntries (snd d)) (decoded w projects))) k"
    unfolding main_def using main_no_pseudo by (rule personOf_aggregate)
  with assms(2) have "addPeople w Map.empty
        (concat (map (\<lambda>d. PeopleEntries (snd d)) (decoded w projects))) k = Some v"
    by simp
  then have "Map.empty k = Some v \<or> k \<in> ToLower w ` fst ` set
      (concat (map (\<lambda>d. PeopleEntries (snd d)) (decoded w projects)))"
    by (rule addPeople_keys)
  then obtain n where "k = ToLower w n" by auto
  then show ?thesis by (simp add: assms(1))
qed

text \<open>
  Claim C1 asks that every nick in the pseudo-groups be lowercase, as the keys of the
  person mapping and the project groups are. In \<open>world_demo\<close> the first project
  declares the curators \<open>Tom\<close> and \<open>Sam\<close> and the docs maintainer \<open>Tom\<close>; the
  result lists them unchanged, next to \<open>tom\<close>.
\<close>

theorem pseudo_groups_keep_case:
  "snd (getMaintainers world_demo ''docker'' ''boot2docker'') = Inr demoA
   \<and> Curators (Organization demoA) = Some \<lparr>People = [''Tom'', ''Sam'']\<rparr>
   \<and> DocsMaintainers (Organization demoA) = Some \<lparr>People = [''Tom'']\<rparr>
   \<and> groupOf ''Curators'' (main world_demo) = Some [''Sam'', ''Tom'', ''tom'']
   \<and> groupOf ''Docs maintainers'' (main world_demo) = Some [''Tom'']
   \<and> ToLower world_demo ''Tom'' = ''tom'' \<and> ToLower world_demo ''Sam'' = ''sam''"
proof -
  have "groupOf ''Curators'' (main world_demo) =
      Some (removeDuplicates (concat (map (\<lambda>d. curatorsOf (snd d)) (decoded world_demo projects))))"
    unfolding main_def using main_no_pseudo by (rule groupOf_Curators)
  then have c: "groupOf ''Curators'' (main world_demo) = Some [''Sam'', ''Tom'', ''tom'']"
    by (simp add: demo_decoded curatorsOf_def demoA_def demoB_def demoC_def removeDuplicates_def)
  have "groupOf ''Docs maintainers'' (main world_demo) =
      Some (removeDuplicates (concat (map (\<lambda>d. docsOf (snd d)) (decoded world_demo projects))))"
    unfolding main_def using main_no_pseudo by (rule groupOf_Docs)
  then have d: "groupOf ''Docs maintainers'' (main world_demo) = Some [''Tom'']"
    by (simp add: demo_decoded docsOf_def demoA_def demoB_def demoC_def removeDuplicates_def)
  show ?thesis
    using c d by (simp add: demo_fetch demo_lower demoA_def)
qed

end
